theory Spec2Isabelle
  imports Main "HOL-Library.Word" "HOL-Library.Sublist" "HOL-Library.Monad_Syntax"
begin

unbundle bit_operations_syntax

section \<open>Bytes, buffers and strings\<close>

text \<open>
  A Node \<open>Buffer\<close> and the contents of an opened file are lists of bytes. A JavaScript
  string is a list of UTF-16 code units. Offsets and sizes are JavaScript numbers that
  hold sums of unsigned 32-bit fields; they are modelled as \<open>nat\<close> (exact below
  \<open>2 ^ 53\<close>, which no file a player can hold reaches).
\<close>

type_synonym byte = "8 word"
type_synonym jsstring = "16 word list"

definition alloc :: "nat \<Rightarrow> byte list" where
  \<comment> \<open>\<open>Buffer.alloc(n)\<close>: n zero bytes.\<close>
  "alloc n = replicate n 0"

definition slice :: "byte list \<Rightarrow> nat \<Rightarrow> nat \<Rightarrow> byte list" where
  \<comment> \<open>\<open>buffer.slice(start, stop)\<close>: both ends are clamped to the buffer.\<close>
  "slice buffer start stop = take (stop - start) (drop start buffer)"

definition ascii :: "string \<Rightarrow> byte list" where
  "ascii s = map of_char s"

definition toStringAscii :: "byte list \<Rightarrow> nat \<Rightarrow> nat \<Rightarrow> byte list" where
  \<comment> \<open>\<open>buffer.toString('ascii', start, stop)\<close>: Node clears the top bit of every byte
      before decoding, so the result is given by the masked bytes.\<close>
  "toStringAscii buffer start stop = map (\<lambda>b. b AND 127) (slice buffer start stop)"

fun utf16le :: "byte list \<Rightarrow> jsstring" where
  \<comment> \<open>\<open>toString('utf16le')\<close>: one code unit per byte pair, a trailing odd byte is dropped.\<close>
  "utf16le (lo # hi # bs) = (ucast lo + 256 * ucast hi) # utf16le bs"
| "utf16le bs = []"

definition stripNulls :: "jsstring \<Rightarrow> jsstring" where
  \<comment> \<open>\<open>str.replace(/\0/g, '')\<close>\<close>
  "stripNulls str = filter (\<lambda>c. c \<noteq> 0) str"

fun littleEndianToBigInt :: "byte list \<Rightarrow> nat" where
  \<comment> \<open>The value of the reversed bytes read as one hexadecimal number.\<close>
  "littleEndianToBigInt [] = 0"
| "littleEndianToBigInt (b # bs) = unat b + 256 * littleEndianToBigInt bs"

definition readUInt32LE :: "byte list \<Rightarrow> nat option" where
  \<comment> \<open>\<open>buffer.readUInt32LE(0)\<close> throws a RangeError on fewer than 4 bytes: \<open>None\<close>.\<close>
  "readUInt32LE buffer =
     (if length buffer < 4 then None else Some (littleEndianToBigInt (take 4 buffer)))"

definition readBytesAtPosition :: "byte list \<Rightarrow> byte list \<Rightarrow> nat \<Rightarrow> nat \<Rightarrow> byte list \<times> nat" where
  \<comment> \<open>\<open>handler.read(buffer, 0, len, position)\<close> on a file with contents \<open>handler\<close>: the
      bytes that exist are copied to the front of the buffer, the rest of the buffer keeps
      what it held; the second component is \<open>bytesRead\<close>.\<close>
  "readBytesAtPosition handler buffer position len =
     (let chunk = take len (drop position handler)
      in (chunk @ drop (length chunk) buffer, length chunk))"

definition fieldAt :: "byte list \<Rightarrow> nat \<Rightarrow> nat" where
  \<comment> \<open>Not a function of the program: the unsigned 32-bit little-endian field that a file
      or buffer holds at an offset, in which the theorems state what is read where.\<close>
  "fieldAt buffer pos = littleEndianToBigInt (slice buffer pos (pos + 4))"

section \<open>Track records\<close>

text \<open>
  A track is a JavaScript object; a field that was never assigned is \<open>None\<close>.
  The scanning decoder starts from \<open>{}\<close>, the structured one from an object with
  empty strings.
\<close>

record TrackRecord =
  track :: "jsstring option"
  artist :: "jsstring option"
  album :: "jsstring option"
  playCount :: "nat option"
  lastPlayed :: "int option"
  id' :: nat
  length' :: "nat option"

definition truthy :: "jsstring option \<Rightarrow> bool" where
  \<comment> \<open>JavaScript truthiness of a string field: assigned and not empty.\<close>
  "truthy s = (case s of None \<Rightarrow> False | Some str \<Rightarrow> str \<noteq> [])"

definition setString :: "nat \<Rightarrow> jsstring \<Rightarrow> TrackRecord \<Rightarrow> TrackRecord" where
  \<comment> \<open>The \<open>switch\<close> on the object type: 1 title, 3 album, 4 artist, anything else nothing.\<close>
  "setString mhodType str trk =
     (if mhodType = 1 then trk\<lparr>track := Some str\<rparr>
      else if mhodType = 3 then trk\<lparr>album := Some str\<rparr>
      else if mhodType = 4 then trk\<lparr>artist := Some str\<rparr>
      else trk)"

section \<open>Scanning decoder (uncompressed iTunesDB, file-backed)\<close>

definition parsemhod :: "TrackRecord \<Rightarrow> byte list \<Rightarrow> nat \<Rightarrow> nat \<Rightarrow> TrackRecord \<times> nat" where
  \<comment> \<open>Every call has \<open>startOffset \<ge> 4\<close>, so the subtraction does not go below zero.\<close>
  "parsemhod trk handler startOffset headerSize =
     (let bytesOffset = startOffset + headerSize - 4;
          dword = alloc 4;
          bytesOffset = bytesOffset + 8;
          (dword, _) = readBytesAtPosition handler dword bytesOffset 4;
          totalSizeValue = littleEndianToBigInt dword;
          bytesOffset = bytesOffset + 4;
          (dword, _) = readBytesAtPosition handler dword bytesOffset 4;
          mhodTypeValue = littleEndianToBigInt dword;
          bytesOffset = bytesOffset + 4
      in if mhodTypeValue = 1 \<or> mhodTypeValue = 3 \<or> mhodTypeValue = 4 then
           (let bytesOffset = bytesOffset + 12;
                (dword, _) = readBytesAtPosition handler dword bytesOffset 4;
                stringLengthValue = littleEndianToBigInt dword;
                bytesOffset = bytesOffset + 12
            in if 0 < stringLengthValue \<and> stringLengthValue < 10000 then
                 (let dataArray = alloc stringLengthValue;
                      (dataArray, _) = readBytesAtPosition handler dataArray bytesOffset stringLengthValue;
                      stringData = utf16le dataArray
                  in (setString mhodTypeValue stringData trk, totalSizeValue))
               else (trk, totalSizeValue))
         else (trk, totalSizeValue))"

fun parseMhit_mhods :: "nat \<Rightarrow> TrackRecord \<Rightarrow> byte list \<Rightarrow> nat \<Rightarrow> nat \<Rightarrow> TrackRecord" where
  \<comment> \<open>The loop \<open>for (i = 0; i < mhodEntriesCount; ++i)\<close>; the first argument counts the
      iterations that remain.\<close>
  "parseMhit_mhods 0 trk handler startOffset headerSize = trk"
| "parseMhit_mhods (Suc n) trk handler startOffset headerSize =
     (let (trk, totalSize) = parsemhod trk handler startOffset headerSize
      in parseMhit_mhods n trk handler (startOffset + totalSize) headerSize)"

definition parseMhit :: "byte list \<Rightarrow> nat \<Rightarrow> TrackRecord" where
  "parseMhit handler startOffset =
     (let bytesOffset = startOffset;
          dword = alloc 4;
          (dword, _) = readBytesAtPosition handler dword bytesOffset 4;
          headerSize = littleEndianToBigInt dword;
          bytesOffset = bytesOffset + 4;
          bytesOffset = bytesOffset + 4;
          (dword, _) = readBytesAtPosition handler dword bytesOffset 4;
          mhodEntriesCount = littleEndianToBigInt dword;
          bytesOffset = bytesOffset + 4;
          (dword, _) = readBytesAtPosition handler dword bytesOffset 4;
          trackId = littleEndianToBigInt dword;
          bytesOffset = bytesOffset + 4;
          bytesOffset = bytesOffset + 20;
          (dword, _) = readBytesAtPosition handler dword bytesOffset 4;
          trackLength = littleEndianToBigInt dword;
          trk = \<lparr>track = None, artist = None, album = None, playCount = None,
                 lastPlayed = None, id' = trackId, length' = Some trackLength\<rparr>
      in parseMhit_mhods mhodEntriesCount trk handler startOffset headerSize)"

definition searchMhitStep :: "byte list \<Rightarrow> byte list \<Rightarrow> nat \<Rightarrow> nat \<Rightarrow> TrackRecord list \<Rightarrow> TrackRecord list" where
  \<comment> \<open>The body of the scan loop at index \<open>i\<close>: an \<open>m\<close> byte followed by \<open>hit\<close> (three
      bytes decode as UTF-8 to \<open>hit\<close> only when they are these bytes).\<close>
  "searchMhitStep buffer handler offset i tracklist =
     (if buffer ! i = 109 \<and> slice buffer (i + 1) (i + 4) = ascii ''hit'' then
        (let trk = parseMhit handler (offset + i + 4)
         in if truthy (track trk) then tracklist @ [trk] else tracklist)
      else tracklist)"

definition searchMhitInBuffer :: "byte list \<Rightarrow> nat \<Rightarrow> TrackRecord list \<Rightarrow> byte list \<Rightarrow> nat \<Rightarrow> TrackRecord list" where
  \<comment> \<open>\<open>for (i = 0; i < length - 4; i++)\<close>; no index at or above \<open>length - 1\<close> is read.\<close>
  "searchMhitInBuffer buffer len tracklist handler offset =
     fold (searchMhitStep buffer handler offset) [0 ..< len - 4] tracklist"

definition bufferSize :: nat where
  "bufferSize = 1 * 1024 * 1024"

function parseUncompressed_loop :: "byte list \<Rightarrow> nat \<Rightarrow> TrackRecord list \<Rightarrow> TrackRecord list" where
  \<comment> \<open>The \<open>while (true)\<close> loop over 1 MB windows. The window buffer is reused, but the
      scan stays below \<open>bytesRead\<close>, so only the bytes just read are modelled.\<close>
  "parseUncompressed_loop handler totalBytesRead tracklist =
     (let buffer = take bufferSize (drop totalBytesRead handler);
          bytesRead = length buffer;
          tracklist = searchMhitInBuffer buffer bytesRead tracklist handler totalBytesRead
      in if bytesRead < bufferSize then tracklist
         else parseUncompressed_loop handler (totalBytesRead + bytesRead) tracklist)"
  by pat_completeness auto
termination
  by (relation "measure (\<lambda>(handler, totalBytesRead, tracklist). length handler - totalBytesRead)")
     (auto simp: bufferSize_def)

declare parseUncompressed_loop.simps [simp del]

definition parseUncompressedItunesDb :: "byte list \<Rightarrow> TrackRecord list" where
  "parseUncompressedItunesDb handler = parseUncompressed_loop handler 0 []"

section \<open>Structured decoder (inflated iTunesCDB payload, memory-backed)\<close>

text \<open>
  \<open>utf8\<close> is Node's UTF-8 decoder (\<open>buffer.toString('utf8', ...)\<close>) and \<open>tzOffset\<close>
  is \<open>new Date().getTimezoneOffset() * 60\<close>; both belong to the platform and are
  parameters. The offset is taken to be the same for every conversion of one decode.
  A thrown RangeError is \<open>None\<close> in the bodies of the \<open>try\<close> blocks.
\<close>

definition parseMhod_body :: "(byte list \<Rightarrow> jsstring) \<Rightarrow> byte list \<Rightarrow> nat \<Rightarrow> TrackRecord \<Rightarrow> (TrackRecord \<times> nat) option" where
  "parseMhod_body utf8 buffer mhodStart trk =
     (if toStringAscii buffer mhodStart (mhodStart + 4) \<noteq> ascii ''mhod'' then Some (trk, 4)
      else do {
        let pos = mhodStart + 4;
        mhodHeaderSize \<leftarrow> readUInt32LE (slice buffer pos (pos + 4));
        let pos = pos + 4;
        mhodTotalSize \<leftarrow> readUInt32LE (slice buffer pos (pos + 4));
        let pos = pos + 4;
        mhodType \<leftarrow> readUInt32LE (slice buffer pos (pos + 4));
        let pos = mhodStart + mhodHeaderSize;
        if pos + 16 > length buffer then Some (trk, mhodTotalSize)
        else do {
          encodingCode \<leftarrow> readUInt32LE (slice buffer pos (pos + 4));
          let pos = pos + 4;
          strLen \<leftarrow> readUInt32LE (slice buffer pos (pos + 4));
          let pos = pos + 4;
          let pos = pos + 8;
          if 0 < strLen \<and> strLen < 10000 \<and> pos + strLen \<le> length buffer then
            (let str = (if encodingCode = 1 then utf16le (slice buffer pos (pos + strLen))
                        else utf8 (slice buffer pos (pos + strLen)));
                 str = stripNulls str
             in Some (setString mhodType str trk, mhodTotalSize))
          else Some (trk, mhodTotalSize)
        }
      })"

definition parseMhodFromBuffer :: "(byte list \<Rightarrow> jsstring) \<Rightarrow> byte list \<Rightarrow> nat \<Rightarrow> TrackRecord \<Rightarrow> TrackRecord \<times> nat" where
  \<comment> \<open>The \<open>catch\<close> returns 4; nothing has been assigned to the track when a read throws.\<close>
  "parseMhodFromBuffer utf8 buffer mhodStart trk =
     (case parseMhod_body utf8 buffer mhodStart trk of
        None \<Rightarrow> (trk, 4)
      | Some r \<Rightarrow> r)"

fun parseTrack_mhods :: "(byte list \<Rightarrow> jsstring) \<Rightarrow> nat \<Rightarrow> byte list \<Rightarrow> nat \<Rightarrow> nat \<Rightarrow> TrackRecord \<Rightarrow> TrackRecord" where
  \<comment> \<open>\<open>for (i = 0; i < numMhods && mhodPos < mhitEnd; i++)\<close>; the second argument counts
      the iterations that remain.\<close>
  "parseTrack_mhods utf8 0 buffer mhodPos mhitEnd trk = trk"
| "parseTrack_mhods utf8 (Suc n) buffer mhodPos mhitEnd trk =
     (if mhodPos < mhitEnd then
        (let (trk, mhodSize) = parseMhodFromBuffer utf8 buffer mhodPos trk
         in parseTrack_mhods utf8 n buffer (mhodPos + mhodSize) mhitEnd trk)
      else trk)"

definition parseTrackFromBuffer :: "(byte list \<Rightarrow> jsstring) \<Rightarrow> int \<Rightarrow> byte list \<Rightarrow> nat \<Rightarrow> nat \<Rightarrow> TrackRecord option" where
  \<comment> \<open>\<open>None\<close> is the \<open>null\<close> returned on a wrong marker and by the \<open>catch\<close>.\<close>
  "parseTrackFromBuffer utf8 tzOffset buffer trackStart sequenceIndex =
     (if toStringAscii buffer trackStart (trackStart + 4) \<noteq> ascii ''mhit'' then None
      else do {
        let pos = trackStart + 4;
        mhitHeaderSize \<leftarrow> readUInt32LE (slice buffer pos (pos + 4));
        let pos = pos + 4;
        mhitTotalSize \<leftarrow> readUInt32LE (slice buffer pos (pos + 4));
        let pos = pos + 4;
        numMhods \<leftarrow> readUInt32LE (slice buffer pos (pos + 4));
        let pos = pos + 4;
        trackId \<leftarrow> readUInt32LE (slice buffer pos (pos + 4));
        let pos = pos + 4;
        let pos = pos + 20;
        trackLength \<leftarrow> readUInt32LE (slice buffer pos (pos + 4));
        let playCountOffset = trackStart + 0x50;
        playCount \<leftarrow> readUInt32LE (slice buffer playCountOffset (playCountOffset + 4));
        let lastPlayedOffset = trackStart + 0x58;
        lastPlayed \<leftarrow> readUInt32LE (slice buffer lastPlayedOffset (lastPlayedOffset + 4));
        let lastPlayed = (if 0 < lastPlayed then int lastPlayed - 2082844800 + tzOffset
                          else int lastPlayed);
        let trk = \<lparr>track = Some [], artist = Some [], album = Some [],
                   playCount = Some playCount, lastPlayed = Some lastPlayed,
                   id' = sequenceIndex, length' = Some trackLength\<rparr>;
        let mhodPos = trackStart + mhitHeaderSize;
        let mhitEnd = trackStart + mhitTotalSize;
        Some (parseTrack_mhods utf8 numMhods buffer mhodPos mhitEnd trk)
      })"

function parseTrackList_loop :: "(byte list \<Rightarrow> jsstring) \<Rightarrow> int \<Rightarrow> byte list \<Rightarrow> nat \<Rightarrow> nat \<Rightarrow> nat \<Rightarrow> TrackRecord list \<Rightarrow> TrackRecord list" where
  \<comment> \<open>\<open>for (i = 0; i < numTracks && pos < buffer.length; i++)\<close>. When the read of the
      item's total size throws, the \<open>catch\<close> of \<open>parseTrackList\<close> returns the list so far.\<close>
  "parseTrackList_loop utf8 tzOffset buffer numTracks i pos tracklist =
     (if i < numTracks \<and> pos < length buffer then
        (let tracklist =
               (case parseTrackFromBuffer utf8 tzOffset buffer pos i of
                  None \<Rightarrow> tracklist
                | Some trk \<Rightarrow> if truthy (track trk) then tracklist @ [trk] else tracklist)
         in case readUInt32LE (slice buffer (pos + 8) (pos + 12)) of
              None \<Rightarrow> tracklist
            | Some mhitTotalSize \<Rightarrow>
                parseTrackList_loop utf8 tzOffset buffer numTracks (i + 1) (pos + mhitTotalSize) tracklist)
      else tracklist)"
  by pat_completeness auto
termination
  by (relation "measure (\<lambda>(utf8, tzOffset, buffer, numTracks, i, pos, tracklist). numTracks - i)") auto

declare parseTrackList_loop.simps [simp del]

definition parseTrackList :: "(byte list \<Rightarrow> jsstring) \<Rightarrow> int \<Rightarrow> byte list \<Rightarrow> nat \<Rightarrow> TrackRecord list" where
  "parseTrackList utf8 tzOffset buffer startPos =
     (let pos = startPos
      in if toStringAscii buffer pos (pos + 4) \<noteq> ascii ''mhlt'' then []
         else (let pos = pos + 4
               in case readUInt32LE (slice buffer pos (pos + 4)) of
                    None \<Rightarrow> []
                  | Some mhltHeaderSize \<Rightarrow>
                      (let pos = pos + 4
                       in case readUInt32LE (slice buffer pos (pos + 4)) of
                            None \<Rightarrow> []
                          | Some numTracks \<Rightarrow>
                              (let pos = startPos + mhltHeaderSize
                               in parseTrackList_loop utf8 tzOffset buffer numTracks 0 pos []))))"


definition readMhsd :: "byte list \<Rightarrow> nat \<Rightarrow> (nat \<times> nat \<times> nat) option" where
  \<comment> \<open>The three reads at the head of an \<open>mhsd\<close> section: header size, total size,
      dataset type. Any of them may throw.\<close>
  "readMhsd buffer pos =
     do {
       mhsdHeaderSize \<leftarrow> readUInt32LE (slice buffer (pos + 4) (pos + 8));
       mhsdTotalSize \<leftarrow> readUInt32LE (slice buffer (pos + 8) (pos + 12));
       datasetType \<leftarrow> readUInt32LE (slice buffer (pos + 12) (pos + 16));
       Some (mhsdHeaderSize, mhsdTotalSize, datasetType)
     }"

partial_function (option) parseDecompressed_loop :: "(byte list \<Rightarrow> jsstring) \<Rightarrow> int \<Rightarrow> byte list \<Rightarrow> nat \<Rightarrow> TrackRecord list option" where
  \<comment> \<open>\<open>while (pos < buffer.length - 8)\<close>. A section whose total size is 0 makes the loop
      run forever: the result \<open>None\<close> is non-termination. A throwing read leaves through
      the \<open>catch\<close> with the list still empty.\<close>
  "parseDecompressed_loop utf8 tzOffset buffer pos =
     (if pos + 8 < length buffer then
        (if toStringAscii buffer pos (pos + 4) = ascii ''mhsd'' then
           (case readMhsd buffer pos of
              None \<Rightarrow> Some []
            | Some h \<Rightarrow>
                if snd (snd h) = 1 then Some ([] @ parseTrackList utf8 tzOffset buffer (pos + fst h))
                else parseDecompressed_loop utf8 tzOffset buffer (pos + fst (snd h)))
         else parseDecompressed_loop utf8 tzOffset buffer (pos + 1))
      else Some [])"

definition parseDecompressedDatabase :: "(byte list \<Rightarrow> jsstring) \<Rightarrow> int \<Rightarrow> byte list \<Rightarrow> TrackRecord list option" where
  "parseDecompressedDatabase utf8 tzOffset buffer = parseDecompressed_loop utf8 tzOffset buffer 0"

section \<open>Compressed container\<close>

datatype error = TruncatedRead | InvalidContainer | DecompressionError | FilesystemError

text \<open>
  \<open>inflateRaw\<close> is zlib's raw inflate; \<open>None\<close> is its rejection. The body of the
  \<open>try\<close> block yields \<open>Inl\<close> for what is thrown inside it; the \<open>catch\<close> around it
  logs the error and falls through to \<open>return tracklist\<close>, which is still empty.
\<close>

definition parseCompressed_body :: "(byte list \<Rightarrow> byte list option) \<Rightarrow> (byte list \<Rightarrow> jsstring) \<Rightarrow> int \<Rightarrow> byte list \<Rightarrow> (error + TrackRecord list) option" where
  "parseCompressed_body inflateRaw utf8 tzOffset handler =
     (let (headerBuffer, _) = readBytesAtPosition handler (alloc 4) 0 4
      in if toStringAscii headerBuffer 0 4 \<noteq> ascii ''mhbd'' then Some (Inr [])
         else
           (let (mhbdHeaderBuffer, _) = readBytesAtPosition handler (alloc 4) 4 4
            in case readUInt32LE mhbdHeaderBuffer of
                 None \<Rightarrow> Some (Inl TruncatedRead)
               | Some mhbdHeaderSize \<Rightarrow>
                   (let compressedData = take (50 * 1024 * 1024) (drop mhbdHeaderSize handler);
                        bytesRead = length compressedData;
                        deflateData = slice compressedData 2 bytesRead
                    in case inflateRaw deflateData of
                         None \<Rightarrow> Some (Inl DecompressionError)
                       | Some decompressed \<Rightarrow>
                           map_option Inr (parseDecompressedDatabase utf8 tzOffset decompressed))))"

definition parseCompressedItunesDb :: "(byte list \<Rightarrow> byte list option) \<Rightarrow> (byte list \<Rightarrow> jsstring) \<Rightarrow> int \<Rightarrow> byte list \<Rightarrow> TrackRecord list option" where
  "parseCompressedItunesDb inflateRaw utf8 tzOffset handler =
     map_option (\<lambda>r. case r of Inl e \<Rightarrow> [] | Inr tracklist \<Rightarrow> tracklist)
       (parseCompressed_body inflateRaw utf8 tzOffset handler)"

section \<open>Play Counts correlation\<close>

fun findIndex :: "('a \<Rightarrow> bool) \<Rightarrow> 'a list \<Rightarrow> nat option" where
  \<comment> \<open>\<open>Array.prototype.findIndex\<close>: the first position that satisfies the predicate;
      \<open>None\<close> is the result -1.\<close>
  "findIndex P [] = None"
| "findIndex P (x # xs) = (if P x then Some 0 else map_option Suc (findIndex P xs))"

definition playCountsStep :: "byte list \<Rightarrow> int \<Rightarrow> nat \<Rightarrow> nat \<Rightarrow> nat \<times> byte list \<times> TrackRecord list \<Rightarrow> nat \<times> byte list \<times> TrackRecord list" where
  \<comment> \<open>One iteration of the entry loop at index \<open>i\<close>. The state is \<open>bytesOffset\<close>, the
      4-byte read buffer \<open>dword\<close> (shared by all reads of the function) and the track list,
      which the source updates in place.\<close>
  "playCountsStep handler tzOffset entryLen i st =
     (let (bytesOffset, dword, tracklist) = st;
          savedBytes = bytesOffset;
          (dword, _) = readBytesAtPosition handler dword bytesOffset 4;
          playCount = littleEndianToBigInt dword;
          bytesOffset = bytesOffset + 4;
          (dword, tracklist) =
            (if 0 < playCount then
               (let (dword, _) = readBytesAtPosition handler dword bytesOffset 4;
                    lastPlayed = int (littleEndianToBigInt dword);
                    lastPlayed = lastPlayed - 2082844800;
                    lastPlayed = lastPlayed + tzOffset
                in case findIndex (\<lambda>t. id' t = i) tracklist of
                     Some trackIndex \<Rightarrow>
                       (dword, tracklist[trackIndex := (tracklist ! trackIndex)
                                  \<lparr>playCount := Some playCount, lastPlayed := Some lastPlayed\<rparr>])
                   | None \<Rightarrow> (dword, tracklist))
             else (dword, tracklist));
          bytesOffset = savedBytes + entryLen
      in (bytesOffset, dword, tracklist))"

definition parsePlayCounts_entries :: "byte list \<Rightarrow> int \<Rightarrow> TrackRecord list \<Rightarrow> TrackRecord list" where
  \<comment> \<open>The body of \<open>parsePlayCounts\<close> once the file is open:
      \<open>for (i = 0; i < numEntries - 1; i++)\<close> has no exit but its bound.\<close>
  "parsePlayCounts_entries handler tzOffset tracklist =
     (let bytesOffset = 0;
          bytesOffset = bytesOffset + 8;
          dword = alloc 4;
          (dword, _) = readBytesAtPosition handler dword bytesOffset 4;
          entryLen = littleEndianToBigInt dword;
          bytesOffset = bytesOffset + 4;
          (dword, _) = readBytesAtPosition handler dword bytesOffset 4;
          numEntries = littleEndianToBigInt dword;
          bytesOffset = bytesOffset + 4;
          bytesOffset = bytesOffset + 80
      in snd (snd (fold (playCountsStep handler tzOffset entryLen) [0 ..< numEntries - 1]
                     (bytesOffset, dword, tracklist))))"

text \<open>
  The file system is a map from paths to the contents of the files that can be opened.
\<close>

definition parsePlayCounts :: "(string \<Rightarrow> byte list option) \<Rightarrow> int \<Rightarrow> string \<Rightarrow> TrackRecord list \<Rightarrow> TrackRecord list" where
  \<comment> \<open>A failing \<open>open\<close> is caught and logged: the list stays as it is.\<close>
  "parsePlayCounts files tzOffset filePath tracklist =
     (case files filePath of
        None \<Rightarrow> tracklist
      | Some handler \<Rightarrow> parsePlayCounts_entries handler tzOffset tracklist)"

definition playDataOnly :: "TrackRecord list \<Rightarrow> TrackRecord list \<Rightarrow> bool" where
  \<comment> \<open>Not a function of the program: the second list is the first one except that some
      tracks, each the first of the list with its identifier, carry a new positive play
      count and a new last-played time.\<close>
  "playDataOnly tracklist result =
     (length result = length tracklist \<and>
      (\<forall>j < length tracklist.
         result ! j = tracklist ! j \<or>
         (\<exists>n t. 0 < n \<and> findIndex (\<lambda>x. id' x = id' (tracklist ! j)) tracklist = Some j \<and>
            result ! j = (tracklist ! j)\<lparr>playCount := Some n, lastPlayed := Some t\<rparr>)))"

section \<open>Assembling the history\<close>

definition isCompressed :: "string \<Rightarrow> bool" where
  \<comment> \<open>\<open>filePath.includes('iTunesCDB')\<close>\<close>
  "isCompressed filePath = sublist ''iTunesCDB'' filePath"

definition parseItunesDb :: "(byte list \<Rightarrow> byte list option) \<Rightarrow> (byte list \<Rightarrow> jsstring) \<Rightarrow> int \<Rightarrow> (string \<Rightarrow> byte list option) \<Rightarrow> string \<Rightarrow> (error + TrackRecord list) option" where
  \<comment> \<open>Only a failing \<open>open\<close> reaches the \<open>catch\<close> that rethrows. The outer \<open>option\<close> is
      \<open>None\<close> when the dataset loop of the structured decoder does not terminate.\<close>
  "parseItunesDb inflateRaw utf8 tzOffset files filePath =
     (case files filePath of
        None \<Rightarrow> Some (Inl FilesystemError)
      | Some handler \<Rightarrow>
          if isCompressed filePath then
            map_option Inr (parseCompressedItunesDb inflateRaw utf8 tzOffset handler)
          else Some (Inr (parseUncompressedItunesDb handler)))"

definition parse :: "(byte list \<Rightarrow> byte list option) \<Rightarrow> (byte list \<Rightarrow> jsstring) \<Rightarrow> int \<Rightarrow> (string \<Rightarrow> byte list option) \<Rightarrow> string \<Rightarrow> string \<Rightarrow> (error + TrackRecord list) option" where
  "parse inflateRaw utf8 tzOffset files iTunesDbPath playCountsPath =
     (case parseItunesDb inflateRaw utf8 tzOffset files iTunesDbPath of
        None \<Rightarrow> None
      | Some (Inl e) \<Rightarrow> Some (Inl e)
      | Some (Inr tracklist) \<Rightarrow>
          if \<not> isCompressed iTunesDbPath then
            Some (Inr (parsePlayCounts files tzOffset playCountsPath tracklist))
          else Some (Inr tracklist))"






section \<open>Expanding tracks into scrobbles\<close>

datatype jsnum = Num int | NaN

record Scrobble =
  spread :: TrackRecord
  newPlayCount :: nat
  newLastPlayed :: jsnum

text \<open>
  An expanded entry is \<open>{...track, playCount: 1, lastPlayed: ...}\<close>: \<open>spread\<close> is the
  copy of the track, \<open>newPlayCount\<close> and \<open>newLastPlayed\<close> are the two properties
  written over it. Subtracting from an absent \<open>lastPlayed\<close> gives NaN.
\<close>

definition jsMinus :: "int option \<Rightarrow> int \<Rightarrow> jsnum" where
  "jsMinus a b = (case a of None \<Rightarrow> NaN | Some x \<Rightarrow> Num (x - b))"

definition playsOf :: "TrackRecord \<Rightarrow> nat" where
  \<comment> \<open>\<open>track.playCount || 1\<close>\<close>
  "playsOf trk = (case playCount trk of None \<Rightarrow> 1 | Some n \<Rightarrow> if n = 0 then 1 else n)"

definition trackLengthOf :: "TrackRecord \<Rightarrow> nat" where
  \<comment> \<open>\<open>Math.floor((track.length || 180000) / 1000)\<close>\<close>
  "trackLengthOf trk =
     (case length' trk of None \<Rightarrow> 180000 | Some l \<Rightarrow> if l = 0 then 180000 else l) div 1000"

definition expandTrack :: "TrackRecord \<Rightarrow> Scrobble list" where
  \<comment> \<open>The inner loop \<open>for (let i = 0; i < plays; i++)\<close>.\<close>
  "expandTrack trk =
     map (\<lambda>i. \<lparr>spread = trk, newPlayCount = 1,
               newLastPlayed = jsMinus (lastPlayed trk) (int i * int (trackLengthOf trk))\<rparr>)
       [0 ..< playsOf trk]"

definition expandTracksByPlayCount :: "TrackRecord list \<Rightarrow> Scrobble list" where
  "expandTracksByPlayCount tracklist = concat (map expandTrack tracklist)"

section \<open>Sample files\<close>

text \<open>
  Small files in the layout the decoders read, on which the definitions are run.
\<close>

definition sampleItunesDb :: "byte list" where
  \<comment> \<open>One item of an uncompressed database (88 bytes), one field group per line: tag mhit; header size 44; total size 88; object count 1 (+12); identifier 2 (+16); 20 bytes; length 180000 (+40); then its title object: tag mhod; header size 24; total size 44; type 1; 8 bytes; 1 (+24); string length 4 (+28); 8 bytes; payload A, NUL in UTF-16LE (+40).\<close>
  "sampleItunesDb =
     [
      109, 104, 105, 116,
      44, 0, 0, 0,
      88, 0, 0, 0,
      1, 0, 0, 0,
      2, 0, 0, 0,
      0, 0, 0, 0, 0, 0, 0, 0, 0, 0, 0, 0, 0, 0, 0, 0, 0, 0, 0, 0,
      32, 191, 2, 0,
      109, 104, 111, 100,
      24, 0, 0, 0,
      44, 0, 0, 0,
      1, 0, 0, 0,
      0, 0, 0, 0, 0, 0, 0, 0,
      1, 0, 0, 0,
      4, 0, 0, 0,
      0, 0, 0, 0, 0, 0, 0, 0,
      65, 0, 0, 0
     ]"

definition samplePlayCounts :: "byte list" where
  \<comment> \<open>A Play Counts file (160 bytes): 8 bytes; stride 16; entry count 5; 80 bytes; then four entries of 16 bytes at 96, 112, 128 and 144: 2 plays, last played 2082846800; no plays; 3 plays, last played 2082845800; 1 play, last played 2082845300.\<close>
  "samplePlayCounts =
     [
      0, 0, 0, 0, 0, 0, 0, 0,
      16, 0, 0, 0,
      5, 0, 0, 0,
      0, 0, 0, 0, 0, 0, 0, 0, 0, 0, 0, 0, 0, 0, 0, 0, 0, 0, 0, 0, 0, 0, 0, 0, 0, 0, 0, 0, 0, 0, 0, 0, 0, 0, 0, 0, 0, 0, 0, 0,
      0, 0, 0, 0, 0, 0, 0, 0, 0, 0, 0, 0, 0, 0, 0, 0, 0, 0, 0, 0, 0, 0, 0, 0, 0, 0, 0, 0, 0, 0, 0, 0, 0, 0, 0, 0, 0, 0, 0, 0,
      2, 0, 0, 0, 80, 184, 37, 124, 0, 0, 0, 0, 0, 0, 0, 0,
      0, 0, 0, 0, 0, 0, 0, 0, 0, 0, 0, 0, 0, 0, 0, 0,
      3, 0, 0, 0, 104, 180, 37, 124, 0, 0, 0, 0, 0, 0, 0, 0,
      1, 0, 0, 0, 116, 178, 37, 124, 0, 0, 0, 0, 0, 0, 0, 0
     ]"

definition samplePlayCountsUndated :: "byte list" where
  \<comment> \<open>A Play Counts file (104 bytes) with stride 8, entry count 2 and one entry at 96: 1 play, last-played field 0.\<close>
  "samplePlayCountsUndated =
     [
      0, 0, 0, 0, 0, 0, 0, 0,
      8, 0, 0, 0,
      2, 0, 0, 0,
      0, 0, 0, 0, 0, 0, 0, 0, 0, 0, 0, 0, 0, 0, 0, 0, 0, 0, 0, 0, 0, 0, 0, 0, 0, 0, 0, 0, 0, 0, 0, 0, 0, 0, 0, 0, 0, 0, 0, 0,
      0, 0, 0, 0, 0, 0, 0, 0, 0, 0, 0, 0, 0, 0, 0, 0, 0, 0, 0, 0, 0, 0, 0, 0, 0, 0, 0, 0, 0, 0, 0, 0, 0, 0, 0, 0, 0, 0, 0, 0,
      1, 0, 0, 0, 0, 0, 0, 0
     ]"

definition samplePlayCountsTruncated :: "byte list" where
  \<comment> \<open>A Play Counts file cut off after its first entry (104 bytes): stride 8, entry
      count 3, and at 96 the only entry present: 2 plays, last played 2082846800. The
      loop visits the entries 0 and 1; the file ends where entry 1 would start.\<close>
  "samplePlayCountsTruncated =
     [
      0, 0, 0, 0, 0, 0, 0, 0,
      8, 0, 0, 0,
      3, 0, 0, 0,
      0, 0, 0, 0, 0, 0, 0, 0, 0, 0, 0, 0, 0, 0, 0, 0, 0, 0, 0, 0, 0, 0, 0, 0, 0, 0, 0, 0, 0, 0, 0, 0, 0, 0, 0, 0, 0, 0, 0, 0,
      0, 0, 0, 0, 0, 0, 0, 0, 0, 0, 0, 0, 0, 0, 0, 0, 0, 0, 0, 0, 0, 0, 0, 0, 0, 0, 0, 0, 0, 0, 0, 0, 0, 0, 0, 0, 0, 0, 0, 0,
      2, 0, 0, 0, 80, 184, 37, 124
     ]"

definition samplePayload :: "byte list" where
  \<comment> \<open>An inflated payload (164 bytes): a section mhsd (header size 16, total size 164, type 1); a track list mhlt (header size 12, 1 track); at 28 one item: tag mhit; header size 92; total size 136; object count 1 (+12); identifier 7 (+16); 20 bytes; length 180000 (+40); 36 bytes; play count 3 (+80); 4 bytes; last played 2082845800 (+88); then at 120 its title object: tag mhod; header size 24; total size 44; type 1; 8 bytes; encoding code 1; string length 4; 8 bytes; payload A, NUL in UTF-16LE.\<close>
  "samplePayload =
     [
      109, 104, 115, 100, 16, 0, 0, 0, 164, 0, 0, 0, 1, 0, 0, 0,
      109, 104, 108, 116, 12, 0, 0, 0, 1, 0, 0, 0,
      109, 104, 105, 116,
      92, 0, 0, 0,
      136, 0, 0, 0,
      1, 0, 0, 0,
      7, 0, 0, 0,
      0, 0, 0, 0, 0, 0, 0, 0, 0, 0, 0, 0, 0, 0, 0, 0, 0, 0, 0, 0,
      32, 191, 2, 0,
      0, 0, 0, 0, 0, 0, 0, 0, 0, 0, 0, 0, 0, 0, 0, 0, 0, 0, 0, 0, 0, 0, 0, 0, 0, 0, 0, 0, 0, 0, 0, 0, 0, 0, 0, 0,
      3, 0, 0, 0,
      0, 0, 0, 0,
      104, 180, 37, 124,
      109, 104, 111, 100,
      24, 0, 0, 0,
      44, 0, 0, 0,
      1, 0, 0, 0,
      0, 0, 0, 0, 0, 0, 0, 0,
      1, 0, 0, 0,
      4, 0, 0, 0,
      0, 0, 0, 0, 0, 0, 0, 0,
      65, 0, 0, 0
     ]"




definition sampleBadTag :: "byte list" where
  \<comment> \<open>A file whose first four bytes are mhbx, followed by a header size of 8.\<close>
  "sampleBadTag = [109, 104, 98, 120, 8, 0, 0, 0, 120, 156, 3, 0]"

definition sampleBadStream :: "byte list" where
  \<comment> \<open>A file with the tag mhbd and a header size of 8, followed by four bytes that are
      run with an inflater that rejects them.\<close>
  "sampleBadStream = [109, 104, 98, 100, 8, 0, 0, 0, 120, 156, 255, 255]"

definition sampleMaskedTag :: "byte list" where
  \<comment> \<open>\<open>sampleContainer\<close> with the top bit of its first byte set: the first four bytes
      are 237, 104, 98, 100, not the bytes of mhbd.\<close>
  "sampleMaskedTag = [237, 104, 98, 100, 8, 0, 0, 0, 120, 156, 99, 0]"


definition sampleInflate :: "byte list \<Rightarrow> byte list option" where
  \<comment> \<open>An inflater that knows the stream of \<open>sampleContainer\<close>, which it inflates to
      \<open>samplePayload\<close>, and rejects everything else.\<close>
  "sampleInflate deflateData = (if deflateData = [99, 0] then Some samplePayload else None)"

definition sampleCompressedFiles :: "byte list \<Rightarrow> string \<Rightarrow> byte list option" where
  \<comment> \<open>A player whose only file is a compressed database with the given contents.\<close>
  "sampleCompressedFiles contents p = (if p = ''/ipod/iTunesCDB'' then Some contents else None)"

definition utf8_ascii :: "byte list \<Rightarrow> jsstring" where
  \<comment> \<open>Node's UTF-8 decoder on bytes below 128, where every byte is one code unit; it
      stands for the decoder when a sample is run.\<close>
  "utf8_ascii bs = map ucast bs"


definition sampleFiles :: "string \<Rightarrow> byte list option" where
  \<comment> \<open>A player with an uncompressed database and a Play Counts file.\<close>
  "sampleFiles p =
     (if p = ''/ipod/iTunesDB'' then Some sampleItunesDb
      else if p = ''/ipod/Play Counts'' then Some samplePlayCounts
      else None)"

definition sampleTracks :: "TrackRecord list" where
  \<comment> \<open>Three decoded tracks with the identifiers 0, 1 and 2 and no play data yet.\<close>
  "sampleTracks =
     map (\<lambda>i. \<lparr>track = Some [65], artist = None, album = None, playCount = None,
                 lastPlayed = None, id' = i, length' = Some 180000\<rparr>) [0, 1, 2]"

section \<open>The expander\<close>

lemma expandTracksByPlayCount_append:
  "expandTracksByPlayCount (xs @ ys) = expandTracksByPlayCount xs @ expandTracksByPlayCount ys"
  by (simp add: expandTracksByPlayCount_def)

lemma expandTracksByPlayCount_Cons:
  "expandTracksByPlayCount (trk # ys) = expandTrack trk @ expandTracksByPlayCount ys"
  by (simp add: expandTracksByPlayCount_def)

lemma playsOf_pos: "0 < playsOf trk"
  by (simp add: playsOf_def split: option.split)

lemma length_expandTrack: "length (expandTrack trk) = playsOf trk"
  by (simp add: expandTrack_def)

lemma length_expandTracksByPlayCount:
  "length tracklist \<le> length (expandTracksByPlayCount tracklist)"
proof (induction tracklist)
  case Nil
  show ?case by (simp add: expandTracksByPlayCount_def)
next
  case (Cons trk tracklist)
  have "1 \<le> length (expandTrack trk)"
    using playsOf_pos [of trk] by (simp add: length_expandTrack)
  with Cons show ?case
    by (simp add: expandTracksByPlayCount_Cons)
qed

text \<open>
  Claim C4. A track with play count \<open>n > 0\<close>, last played at \<open>t\<close> and length
  \<open>L\<close> milliseconds (180000 when the length is absent or zero) contributes exactly the
  \<open>n\<close> entries with the timestamps \<open>t - i * floor (L / 1000)\<close> for \<open>i = 0 .. n - 1\<close>,
  in this order, wherever it stands in the list. The witness is the track with 3 plays,
  length 180000 and last played 1000, which yields 1000, 820 and 640.
\<close>

theorem expand_played_track:
  assumes "playCount trk = Some n" and "0 < n" and "lastPlayed trk = Some t"
    and "L = (case length' trk of None \<Rightarrow> 180000 | Some l \<Rightarrow> if l = 0 then 180000 else l)"
  shows "expandTracksByPlayCount (before @ trk # after) =
           expandTracksByPlayCount before
           @ map (\<lambda>i. \<lparr>spread = trk, newPlayCount = 1,
                        newLastPlayed = Num (t - int i * int (L div 1000))\<rparr>) [0 ..< n]
           @ expandTracksByPlayCount after"
  using assms
  by (simp add: expandTracksByPlayCount_append expandTracksByPlayCount_Cons expandTrack_def
      playsOf_def trackLengthOf_def jsMinus_def)

theorem expand_played_track_witness:
  "map newLastPlayed
     (expandTracksByPlayCount
        [\<lparr>track = Some [65], artist = None, album = None, playCount = Some 3,
          lastPlayed = Some 1000, id' = 0, length' = Some 180000\<rparr>])
   = [Num 1000, Num 820, Num 640]"
  using expand_played_track [of "\<lparr>track = Some [65], artist = None, album = None,
      playCount = Some 3, lastPlayed = Some 1000, id' = 0, length' = Some 180000\<rparr>"
      3 1000 180000 "[]" "[]"]
  by (simp add: expandTracksByPlayCount_def upt_rec)

text \<open>
  Claim C9. A track whose play count is absent or 0 contributes exactly one entry, whose
  timestamp is the track's \<open>lastPlayed\<close> (NaN when the track has none); no track
  contributes zero entries, and the expanded list is never shorter than the input.
\<close>

theorem expand_unplayed_track:
  assumes "playCount trk = None \<or> playCount trk = Some 0"
  shows "expandTracksByPlayCount (before @ trk # after) =
           expandTracksByPlayCount before
           @ [\<lparr>spread = trk, newPlayCount = 1,
               newLastPlayed = (case lastPlayed trk of None \<Rightarrow> NaN | Some t \<Rightarrow> Num t)\<rparr>]
           @ expandTracksByPlayCount after
         \<and> expandTracksByPlayCount [anyTrack] \<noteq> []
         \<and> length tracklist \<le> length (expandTracksByPlayCount tracklist)"
proof -
  have "playsOf trk = 1"
    using assms by (auto simp: playsOf_def)
  then have "expandTrack trk =
      [\<lparr>spread = trk, newPlayCount = 1,
        newLastPlayed = (case lastPlayed trk of None \<Rightarrow> NaN | Some t \<Rightarrow> Num t)\<rparr>]"
    by (simp add: expandTrack_def jsMinus_def split: option.split)
  moreover have "expandTracksByPlayCount [anyTrack] \<noteq> []"
    using playsOf_pos [of anyTrack] length_expandTrack [of anyTrack]
    by (auto simp: expandTracksByPlayCount_def)
  ultimately show ?thesis
    by (simp add: expandTracksByPlayCount_append expandTracksByPlayCount_Cons
        length_expandTracksByPlayCount)
qed

theorem expand_unplayed_track_witness:
  "expandTracksByPlayCount
     [\<lparr>track = Some [65], artist = None, album = None, playCount = Some 0,
       lastPlayed = Some 1000, id' = 0, length' = Some 180000\<rparr>]
   = [\<lparr>spread = \<lparr>track = Some [65], artist = None, album = None, playCount = Some 0,
                   lastPlayed = Some 1000, id' = 0, length' = Some 180000\<rparr>,
       newPlayCount = 1, newLastPlayed = Num 1000\<rparr>]"
  using expand_unplayed_track [of "\<lparr>track = Some [65], artist = None, album = None,
      playCount = Some 0, lastPlayed = Some 1000, id' = 0, length' = Some 180000\<rparr>" "[]" "[]"]
  by (simp add: expandTracksByPlayCount_def)

section \<open>Correlation with the Play Counts file\<close>

lemma length_readBytesAtPosition:
  "len \<le> length buffer \<Longrightarrow> length (fst (readBytesAtPosition handler buffer position len)) = length buffer"
  by (simp add: readBytesAtPosition_def Let_def)

lemma readBytesAtPosition_complete:
  "position + len \<le> length handler \<Longrightarrow> length buffer = len \<Longrightarrow>
     fst (readBytesAtPosition handler buffer position len) = slice handler position (position + len)"
  by (simp add: readBytesAtPosition_def Let_def slice_def)

lemma read_dword:
  "position + 4 \<le> length handler \<Longrightarrow> length dword = 4 \<Longrightarrow>
     littleEndianToBigInt (fst (readBytesAtPosition handler dword position 4)) = fieldAt handler position"
  by (simp add: readBytesAtPosition_complete fieldAt_def)

lemma findIndex_Some: "findIndex P xs = Some j \<Longrightarrow> j < length xs \<and> P (xs ! j)"
proof (induction xs arbitrary: j)
  case Nil
  then show ?case by simp
next
  case (Cons x xs)
  then show ?case by (auto split: if_splits)
qed

lemma findIndex_map: "findIndex (\<lambda>t. f t = v) xs = findIndex (\<lambda>x. x = v) (map f xs)"
  by (induction xs) auto

lemma playCountsStep_cases:
  assumes "playCountsStep handler tzOffset entryLen i (bytesOffset, dword, tracklist) = (bytesOffset', dword', tracklist')"
  shows "bytesOffset' = bytesOffset + entryLen"
    and "length dword = 4 \<Longrightarrow> length dword' = 4"
    and "tracklist' = tracklist \<or>
         (\<exists>trackIndex n t. 0 < n \<and> findIndex (\<lambda>x. id' x = i) tracklist = Some trackIndex \<and>
            tracklist' = tracklist[trackIndex := (tracklist ! trackIndex)
                                    \<lparr>playCount := Some n, lastPlayed := Some t\<rparr>])"
proof -
  show "bytesOffset' = bytesOffset + entryLen"
    using assms
    by (auto simp: playCountsStep_def Let_def split: prod.splits if_splits option.splits)
  show "length dword = 4 \<Longrightarrow> length dword' = 4"
    using assms length_readBytesAtPosition [of 4 _ handler]
    by (auto simp: playCountsStep_def Let_def split: prod.splits if_splits option.splits)
       (metis fst_conv le_refl)+
  show "tracklist' = tracklist \<or>
         (\<exists>trackIndex n t. 0 < n \<and> findIndex (\<lambda>x. id' x = i) tracklist = Some trackIndex \<and>
            tracklist' = tracklist[trackIndex := (tracklist ! trackIndex)
                                    \<lparr>playCount := Some n, lastPlayed := Some t\<rparr>])"
    using assms
    by (auto simp: playCountsStep_def Let_def split: prod.splits if_splits option.splits)
qed

lemma playDataOnly_refl: "playDataOnly tracklist tracklist"
  by (simp add: playDataOnly_def)

lemma playDataOnly_ids:
  assumes "playDataOnly tracklist result"
  shows "map id' result = map id' tracklist"
proof (rule nth_equalityI)
  show "length (map id' result) = length (map id' tracklist)"
    using assms by (simp add: playDataOnly_def)
next
  fix j assume "j < length (map id' result)"
  then have j: "j < length tracklist" "j < length result"
    using assms by (simp_all add: playDataOnly_def)
  then have "id' (result ! j) = id' (tracklist ! j)"
    using assms by (auto simp: playDataOnly_def)
  with j show "map id' result ! j = map id' tracklist ! j" by simp
qed

lemma playDataOnly_findIndex:
  assumes "playDataOnly tracklist result"
  shows "findIndex (\<lambda>x. id' x = i) result = findIndex (\<lambda>x. id' x = i) tracklist"
  using playDataOnly_ids [OF assms] by (simp add: findIndex_map [of id'])

lemma playDataOnly_update:
  assumes inv: "playDataOnly tracklist cur"
    and fi: "findIndex (\<lambda>x. id' x = i) cur = Some trackIndex"
    and n: "0 < n"
  shows "playDataOnly tracklist
           (cur[trackIndex := (cur ! trackIndex)\<lparr>playCount := Some n, lastPlayed := Some t\<rparr>])"
proof -
  have fi': "findIndex (\<lambda>x. id' x = i) tracklist = Some trackIndex"
    using fi playDataOnly_findIndex [OF inv] by simp
  then have ti: "trackIndex < length tracklist" "id' (tracklist ! trackIndex) = i"
    using findIndex_Some [OF fi'] by simp_all
  have len: "length cur = length tracklist"
    using inv by (simp add: playDataOnly_def)
  have cur_ti: "(cur ! trackIndex)\<lparr>playCount := Some n, lastPlayed := Some t\<rparr> =
                (tracklist ! trackIndex)\<lparr>playCount := Some n, lastPlayed := Some t\<rparr>"
    using inv ti(1) by (auto simp: playDataOnly_def)
  have other: "\<And>j. j < length tracklist \<Longrightarrow> j \<noteq> trackIndex \<Longrightarrow>
      cur ! j = tracklist ! j \<or>
      (\<exists>n t. 0 < n \<and> findIndex (\<lambda>x. id' x = id' (tracklist ! j)) tracklist = Some j \<and>
         cur ! j = (tracklist ! j)\<lparr>playCount := Some n, lastPlayed := Some t\<rparr>)"
    using inv by (simp add: playDataOnly_def)
  have this_one: "findIndex (\<lambda>x. id' x = id' (tracklist ! trackIndex)) tracklist = Some trackIndex"
    using fi' ti(2) by simp
  let ?new = "cur[trackIndex := (cur ! trackIndex)\<lparr>playCount := Some n, lastPlayed := Some t\<rparr>]"
  have at_index: "?new ! trackIndex = (tracklist ! trackIndex)\<lparr>playCount := Some n, lastPlayed := Some t\<rparr>"
    using ti(1) len cur_ti by simp
  have elsewhere: "\<And>j. j \<noteq> trackIndex \<Longrightarrow> ?new ! j = cur ! j"
    by simp
  have "\<And>j. j < length tracklist \<Longrightarrow>
      ?new ! j = tracklist ! j \<or>
      (\<exists>n t. 0 < n \<and> findIndex (\<lambda>x. id' x = id' (tracklist ! j)) tracklist = Some j \<and>
         ?new ! j = (tracklist ! j)\<lparr>playCount := Some n, lastPlayed := Some t\<rparr>)"
  proof -
    fix j assume j: "j < length tracklist"
    show "?new ! j = tracklist ! j \<or>
      (\<exists>n t. 0 < n \<and> findIndex (\<lambda>x. id' x = id' (tracklist ! j)) tracklist = Some j \<and>
         ?new ! j = (tracklist ! j)\<lparr>playCount := Some n, lastPlayed := Some t\<rparr>)"
    proof (cases "j = trackIndex")
      case True
      then show ?thesis
        using this_one n at_index by blast
    next
      case False
      then show ?thesis
        using other [OF j False] elsewhere [OF False] by simp
    qed
  qed
  moreover have "length ?new = length tracklist"
    using len by simp
  ultimately show ?thesis
    unfolding playDataOnly_def by blast
qed

lemma playDataOnly_fold:
  assumes "playDataOnly tracklist cur"
    and "fold (playCountsStep handler tzOffset entryLen) is (bytesOffset, dword, cur)
           = (bytesOffset', dword', result)"
  shows "playDataOnly tracklist result"
  using assms
proof (induction "is" arbitrary: bytesOffset dword cur)
  case Nil
  then show ?case by simp
next
  case (Cons i "is")
  obtain b1 d1 c1 where step:
    "playCountsStep handler tzOffset entryLen i (bytesOffset, dword, cur) = (b1, d1, c1)"
    by (metis prod_cases3)
  have "playDataOnly tracklist c1"
    using playCountsStep_cases(3) [OF step] Cons.prems(1) playDataOnly_update
    by blast
  moreover have "fold (playCountsStep handler tzOffset entryLen) is (b1, d1, c1)
                   = (bytesOffset', dword', result)"
    using Cons.prems(2) step by simp
  ultimately show ?case
    by (rule Cons.IH)
qed

lemma playDataOnly_fold_snd:
  assumes "playDataOnly tracklist cur"
  shows "playDataOnly tracklist
           (snd (snd (fold (playCountsStep handler tzOffset entryLen) is (bytesOffset, dword, cur))))"
  using playDataOnly_fold [OF assms] by (metis prod.collapse)

lemma playDataOnly_entries:
  "playDataOnly tracklist (parsePlayCounts_entries handler tzOffset tracklist)"
  by (simp add: parsePlayCounts_entries_def Let_def case_prod_beta playDataOnly_fold_snd
      playDataOnly_refl)

lemma playDataOnly_parsePlayCounts:
  "playDataOnly tracklist (parsePlayCounts files tzOffset filePath tracklist)"
  by (simp add: parsePlayCounts_def playDataOnly_refl playDataOnly_entries split: option.split)

text \<open>
  Whatever the Play Counts file holds, and also when it cannot be opened, correlation
  returns a list of the same length in which every track keeps its title, artist, album,
  length and identifier; a track that differs from the input carries a new positive play
  count and a new last-played time and is the one \<open>findIndex\<close> returns for its
  identifier.
\<close>

lemma correlation_frame:
  "length (parsePlayCounts files tzOffset filePath tracklist) = length tracklist \<and>
   (\<forall>j < length tracklist.
      track (parsePlayCounts files tzOffset filePath tracklist ! j) = track (tracklist ! j) \<and>
      artist (parsePlayCounts files tzOffset filePath tracklist ! j) = artist (tracklist ! j) \<and>
      album (parsePlayCounts files tzOffset filePath tracklist ! j) = album (tracklist ! j) \<and>
      length' (parsePlayCounts files tzOffset filePath tracklist ! j) = length' (tracklist ! j) \<and>
      id' (parsePlayCounts files tzOffset filePath tracklist ! j) = id' (tracklist ! j) \<and>
      (parsePlayCounts files tzOffset filePath tracklist ! j = tracklist ! j \<or>
       (\<exists>n t. 0 < n \<and> findIndex (\<lambda>x. id' x = id' (tracklist ! j)) tracklist = Some j \<and>
          parsePlayCounts files tzOffset filePath tracklist ! j
            = (tracklist ! j)\<lparr>playCount := Some n, lastPlayed := Some t\<rparr>)))"
  using playDataOnly_parsePlayCounts [of tracklist files tzOffset filePath]
  unfolding playDataOnly_def by auto

lemma playCountsStep_complete:
  assumes "bytesOffset + 8 \<le> length handler" and "length dword = 4"
  shows "fst (playCountsStep handler tzOffset entryLen i (bytesOffset, dword, tracklist))
           = bytesOffset + entryLen"
    and "length (fst (snd (playCountsStep handler tzOffset entryLen i (bytesOffset, dword, tracklist)))) = 4"
    and "snd (snd (playCountsStep handler tzOffset entryLen i (bytesOffset, dword, tracklist))) =
           (if 0 < fieldAt handler bytesOffset then
              (case findIndex (\<lambda>t. id' t = i) tracklist of
                 Some trackIndex \<Rightarrow>
                   tracklist[trackIndex := (tracklist ! trackIndex)
                     \<lparr>playCount := Some (fieldAt handler bytesOffset),
                      lastPlayed := Some (int (fieldAt handler (bytesOffset + 4)) - 2082844800 + tzOffset)\<rparr>]
               | None \<Rightarrow> tracklist)
            else tracklist)"
proof -
  obtain d1 n1 where r1: "readBytesAtPosition handler dword bytesOffset 4 = (d1, n1)"
    by (metis surj_pair)
  have d1: "length d1 = 4" "littleEndianToBigInt d1 = fieldAt handler bytesOffset"
    using length_readBytesAtPosition [of 4 dword handler bytesOffset]
      read_dword [of bytesOffset handler dword] assms r1 by simp_all
  obtain d2 n2 where r2: "readBytesAtPosition handler d1 (bytesOffset + 4) 4 = (d2, n2)"
    by (metis surj_pair)
  have d2: "length d2 = 4" "littleEndianToBigInt d2 = fieldAt handler (bytesOffset + 4)"
    using length_readBytesAtPosition [of 4 d1 handler "bytesOffset + 4"]
      read_dword [of "bytesOffset + 4" handler d1] assms d1(1) r2 by simp_all
  show "fst (playCountsStep handler tzOffset entryLen i (bytesOffset, dword, tracklist))
           = bytesOffset + entryLen"
    by (simp add: playCountsStep_def Let_def r1 r2 split: option.split)
  show "length (fst (snd (playCountsStep handler tzOffset entryLen i (bytesOffset, dword, tracklist)))) = 4"
    by (simp add: playCountsStep_def Let_def r1 r2 d1 d2 split: option.split)
  show "snd (snd (playCountsStep handler tzOffset entryLen i (bytesOffset, dword, tracklist))) =
           (if 0 < fieldAt handler bytesOffset then
              (case findIndex (\<lambda>t. id' t = i) tracklist of
                 Some trackIndex \<Rightarrow>
                   tracklist[trackIndex := (tracklist ! trackIndex)
                     \<lparr>playCount := Some (fieldAt handler bytesOffset),
                      lastPlayed := Some (int (fieldAt handler (bytesOffset + 4)) - 2082844800 + tzOffset)\<rparr>]
               | None \<Rightarrow> tracklist)
            else tracklist)"
    by (simp add: playCountsStep_def Let_def r1 r2 d1 d2 split: option.split)
qed

lemma findIndex_cong_ids:
  assumes "length cur = length tracklist"
    and "\<And>j. j < length tracklist \<Longrightarrow> id' (cur ! j) = id' (tracklist ! j)"
  shows "findIndex (\<lambda>t. id' t = i) cur = findIndex (\<lambda>t. id' t = i) tracklist"
proof -
  have "map id' cur = map id' tracklist"
    using assms by (intro nth_equalityI) simp_all
  then show ?thesis
    by (simp add: findIndex_map [of id'])
qed

lemma correlation_after:
  fixes upd :: "nat \<Rightarrow> nat \<Rightarrow> TrackRecord"
    and handler :: "byte list" and entryLen :: nat and tzOffset :: int
    and tracklist :: "TrackRecord list"
  defines "upd \<equiv> \<lambda>k j.
     (if id' (tracklist ! j) < k \<and> 0 < fieldAt handler (96 + id' (tracklist ! j) * entryLen)
         \<and> findIndex (\<lambda>t. id' t = id' (tracklist ! j)) tracklist = Some j
      then (tracklist ! j)
             \<lparr>playCount := Some (fieldAt handler (96 + id' (tracklist ! j) * entryLen)),
              lastPlayed := Some (int (fieldAt handler (96 + id' (tracklist ! j) * entryLen + 4))
                                    - 2082844800 + tzOffset)\<rparr>
      else tracklist ! j)"
  assumes complete: "\<forall>i < n. 96 + i * entryLen + 8 \<le> length handler"
    and dword: "length dword = 4"
    and k: "k \<le> n"
  shows "\<exists>dk cur. fold (playCountsStep handler tzOffset entryLen) [0 ..< k] (96, dword, tracklist)
                    = (96 + k * entryLen, dk, cur)
                  \<and> length dk = 4 \<and> length cur = length tracklist
                  \<and> (\<forall>j < length tracklist. cur ! j = upd k j)"
  using k
proof (induction k)
  case 0
  show ?case using dword by (simp add: upd_def)
next
  case (Suc k)
  then obtain dk cur where
    run: "fold (playCountsStep handler tzOffset entryLen) [0 ..< k] (96, dword, tracklist)
            = (96 + k * entryLen, dk, cur)"
    and dk: "length dk = 4" and len: "length cur = length tracklist"
    and cur: "\<And>j. j < length tracklist \<Longrightarrow> cur ! j = upd k j"
    by auto
  have pos: "96 + k * entryLen + 8 \<le> length handler"
    using complete Suc.prems by simp
  let ?st = "playCountsStep handler tzOffset entryLen k (96 + k * entryLen, dk, cur)"
  let ?pc = "fieldAt handler (96 + k * entryLen)"
  let ?lp = "int (fieldAt handler (96 + k * entryLen + 4)) - 2082844800 + tzOffset"
  have ids: "\<And>j. j < length tracklist \<Longrightarrow> id' (cur ! j) = id' (tracklist ! j)"
    using cur by (simp add: upd_def)
  have fi: "findIndex (\<lambda>t. id' t = k) cur = findIndex (\<lambda>t. id' t = k) tracklist"
    using findIndex_cong_ids [OF len ids] by simp
  have st1: "fst ?st = 96 + Suc k * entryLen"
    using playCountsStep_complete(1) [OF pos dk] by simp
  have st2: "length (fst (snd ?st)) = 4"
    using playCountsStep_complete(2) [OF pos dk] by simp
  have st3: "snd (snd ?st) =
       (if 0 < ?pc then
          (case findIndex (\<lambda>t. id' t = k) tracklist of
             Some trackIndex \<Rightarrow>
               cur[trackIndex := (cur ! trackIndex)\<lparr>playCount := Some ?pc, lastPlayed := Some ?lp\<rparr>]
           | None \<Rightarrow> cur)
        else cur)"
    using playCountsStep_complete(3) [OF pos dk, of tzOffset entryLen k cur] fi by simp
  have st_len: "length (snd (snd ?st)) = length tracklist"
    using len by (simp add: st3 split: option.split)
  have st_nth: "snd (snd ?st) ! j = upd (Suc k) j" if j: "j < length tracklist" for j
  proof (cases "0 < ?pc")
    case False
    then have "upd (Suc k) j = upd k j"
      by (auto simp: upd_def less_Suc_eq)
    with False cur [OF j] show ?thesis by (simp add: st3)
  next
    case True
    show ?thesis
    proof (cases "findIndex (\<lambda>t. id' t = k) tracklist")
      case None
      have "upd (Suc k) j = upd k j"
        using None by (auto simp: upd_def less_Suc_eq)
      with True None cur [OF j] show ?thesis by (simp add: st3)
    next
      case (Some trackIndex)
      have ti: "trackIndex < length tracklist" "id' (tracklist ! trackIndex) = k"
        using findIndex_Some [OF Some] by simp_all
      show ?thesis
      proof (cases "j = trackIndex")
        case True
        have "cur ! trackIndex = tracklist ! trackIndex"
          using cur [OF ti(1)] ti(2) by (simp add: upd_def)
        then show ?thesis
          using True \<open>0 < ?pc\<close> Some ti len by (simp add: st3 upd_def)
      next
        case False
        have "upd (Suc k) j = upd k j"
          using False Some by (auto simp: upd_def less_Suc_eq)
        with False \<open>0 < ?pc\<close> Some cur [OF j] show ?thesis by (simp add: st3)
      qed
    qed
  qed
  have "fold (playCountsStep handler tzOffset entryLen) [0 ..< Suc k] (96, dword, tracklist) = ?st"
    using run by simp
  also have "?st = (96 + Suc k * entryLen, fst (snd ?st), snd (snd ?st))"
    using st1 by (metis prod.collapse)
  finally show ?case
    using st2 st_len st_nth by blast
qed

lemma correlation_entries:
  assumes header: "16 \<le> length handler"
    and complete: "\<forall>i < fieldAt handler 12 - 1. 96 + i * fieldAt handler 8 + 8 \<le> length handler"
    and j: "j < length tracklist"
  shows "parsePlayCounts_entries handler tzOffset tracklist ! j =
           (if id' (tracklist ! j) < fieldAt handler 12 - 1
               \<and> 0 < fieldAt handler (96 + id' (tracklist ! j) * fieldAt handler 8)
               \<and> findIndex (\<lambda>t. id' t = id' (tracklist ! j)) tracklist = Some j
            then (tracklist ! j)
                   \<lparr>playCount := Some (fieldAt handler (96 + id' (tracklist ! j) * fieldAt handler 8)),
                    lastPlayed := Some (int (fieldAt handler (96 + id' (tracklist ! j) * fieldAt handler 8 + 4))
                                          - 2082844800 + tzOffset)\<rparr>
            else tracklist ! j)"
proof -
  obtain d1 n1 where r1: "readBytesAtPosition handler (alloc 4) 8 4 = (d1, n1)"
    by (metis surj_pair)
  have d1: "length d1 = 4" "littleEndianToBigInt d1 = fieldAt handler 8"
    using length_readBytesAtPosition [of 4 "alloc 4" handler 8]
      read_dword [of 8 handler "alloc 4"] header r1 by (simp_all add: alloc_def)
  obtain d2 n2 where r2: "readBytesAtPosition handler d1 12 4 = (d2, n2)"
    by (metis surj_pair)
  have d2: "length d2 = 4" "littleEndianToBigInt d2 = fieldAt handler 12"
    using length_readBytesAtPosition [of 4 d1 handler 12]
      read_dword [of 12 handler d1] header d1(1) r2 by simp_all
  have unfold: "parsePlayCounts_entries handler tzOffset tracklist =
      snd (snd (fold (playCountsStep handler tzOffset (fieldAt handler 8))
                  [0 ..< fieldAt handler 12 - 1] (96, d2, tracklist)))"
    by (simp add: parsePlayCounts_entries_def Let_def r1 r2 d1 d2)
  obtain dk cur where
    "fold (playCountsStep handler tzOffset (fieldAt handler 8)) [0 ..< fieldAt handler 12 - 1]
       (96, d2, tracklist) = (96 + (fieldAt handler 12 - 1) * fieldAt handler 8, dk, cur)"
    and "\<forall>j < length tracklist. cur ! j =
           (if id' (tracklist ! j) < fieldAt handler 12 - 1
               \<and> 0 < fieldAt handler (96 + id' (tracklist ! j) * fieldAt handler 8)
               \<and> findIndex (\<lambda>t. id' t = id' (tracklist ! j)) tracklist = Some j
            then (tracklist ! j)
                   \<lparr>playCount := Some (fieldAt handler (96 + id' (tracklist ! j) * fieldAt handler 8)),
                    lastPlayed := Some (int (fieldAt handler (96 + id' (tracklist ! j) * fieldAt handler 8 + 4))
                                          - 2082844800 + tzOffset)\<rparr>
            else tracklist ! j)"
    using correlation_after [OF complete d2(1) le_refl, of tzOffset tracklist] by blast
  then show ?thesis
    using j by (simp add: unfold)
qed

text \<open>
  On a Play Counts file that holds its header and every entry the loop visits (the
  entries \<open>0 .. count - 2\<close>, entry \<open>i\<close> at \<open>96 + i * stride\<close>), the track at position
  \<open>j\<close> with identifier \<open>i\<close> receives the play count and the converted time of entry
  \<open>i\<close> exactly when that entry exists, has a nonzero play count and \<open>j\<close> is the
  position \<open>findIndex\<close> returns for \<open>i\<close>; every other track is returned as it was.
\<close>

lemma correlation_updates:
  assumes "files filePath = Some handler"
    and "16 \<le> length handler"
    and "\<forall>i < fieldAt handler 12 - 1. 96 + i * fieldAt handler 8 + 8 \<le> length handler"
    and "j < length tracklist"
    and "i = id' (tracklist ! j)"
  shows "length (parsePlayCounts files tzOffset filePath tracklist) = length tracklist \<and>
         parsePlayCounts files tzOffset filePath tracklist ! j =
           (if i < fieldAt handler 12 - 1
               \<and> 0 < fieldAt handler (96 + i * fieldAt handler 8)
               \<and> findIndex (\<lambda>t. id' t = i) tracklist = Some j
            then (tracklist ! j)
                   \<lparr>playCount := Some (fieldAt handler (96 + i * fieldAt handler 8)),
                    lastPlayed := Some (int (fieldAt handler (96 + i * fieldAt handler 8 + 4))
                                          - 2082844800 + tzOffset)\<rparr>
            else tracklist ! j)"
proof -
  have "length (parsePlayCounts files tzOffset filePath tracklist) = length tracklist"
    using playDataOnly_parsePlayCounts [of tracklist files tzOffset filePath]
    by (simp add: playDataOnly_def)
  moreover have "parsePlayCounts files tzOffset filePath tracklist
                   = parsePlayCounts_entries handler tzOffset tracklist"
    using assms(1) by (simp add: parsePlayCounts_def)
  ultimately show ?thesis
    using correlation_entries [OF assms(2,3,4), of tzOffset] assms(5) by simp
qed

lemma samplePlayCounts_fields:
  "length samplePlayCounts = 160"
  "fieldAt samplePlayCounts 8 = 16"
  "fieldAt samplePlayCounts 12 = 5"
  "fieldAt samplePlayCounts 96 = 2"
  "fieldAt samplePlayCounts 100 = 2082846800"
  "fieldAt samplePlayCounts 112 = 0"
  "fieldAt samplePlayCounts 128 = 3"
  "fieldAt samplePlayCounts 132 = 2082845800"
  by (simp_all add: fieldAt_def slice_def samplePlayCounts_def)

lemma samplePlayCounts_complete:
  "\<forall>i < fieldAt samplePlayCounts 12 - 1. 96 + i * fieldAt samplePlayCounts 8 + 8 \<le> length samplePlayCounts"
  by (simp add: samplePlayCounts_fields)

lemma correlation_updates_sample:
  "parsePlayCounts sampleFiles 0 ''/ipod/Play Counts'' sampleTracks ! 0
     = (sampleTracks ! 0)\<lparr>playCount := Some 2, lastPlayed := Some 2000\<rparr> \<and>
   parsePlayCounts sampleFiles 0 ''/ipod/Play Counts'' sampleTracks ! 1 = sampleTracks ! 1 \<and>
   parsePlayCounts sampleFiles 0 ''/ipod/Play Counts'' sampleTracks ! 2
     = (sampleTracks ! 2)\<lparr>playCount := Some 3, lastPlayed := Some 1000\<rparr> \<and>
   length (parsePlayCounts sampleFiles 0 ''/ipod/Play Counts'' sampleTracks) = 3"
proof -
  have f: "sampleFiles ''/ipod/Play Counts'' = Some samplePlayCounts"
    by (simp add: sampleFiles_def)
  have h: "16 \<le> length samplePlayCounts"
    by (simp add: samplePlayCounts_fields)
  show ?thesis
    using
      correlation_updates [where files = sampleFiles and handler = samplePlayCounts
        and tracklist = sampleTracks and tzOffset = 0 and j = 0 and i = 0,
        OF f h samplePlayCounts_complete]
      correlation_updates [where files = sampleFiles and handler = samplePlayCounts
        and tracklist = sampleTracks and tzOffset = 0 and j = 1 and i = 1,
        OF f h samplePlayCounts_complete]
      correlation_updates [where files = sampleFiles and handler = samplePlayCounts
        and tracklist = sampleTracks and tzOffset = 0 and j = 2 and i = 2,
        OF f h samplePlayCounts_complete]
    by (simp add: samplePlayCounts_fields sampleTracks_def)
qed

lemma correlation_frame_sample:
  "length (parsePlayCounts sampleFiles 0 ''/ipod/Play Counts'' sampleTracks) = 3 \<and>
   id' (parsePlayCounts sampleFiles 0 ''/ipod/Play Counts'' sampleTracks ! 2) = 2 \<and>
   track (parsePlayCounts sampleFiles 0 ''/ipod/Play Counts'' sampleTracks ! 2) = Some [65] \<and>
   length' (parsePlayCounts sampleFiles 0 ''/ipod/Play Counts'' sampleTracks ! 2) = Some 180000"
  using correlation_frame [of sampleFiles 0 "''/ipod/Play Counts''" sampleTracks]
  by (simp add: sampleTracks_def)

lemma replicate_numeral_Cons: "replicate (numeral k) x = x # replicate (pred_numeral k) x"
  by (simp add: numeral_eq_Suc)

text \<open>
  Claim C3 fails on a file that ends before the entries its header announces. All reads
  of the loop share one 4-byte buffer, and a read past the end of the file leaves the
  buffer as it was. On \<open>samplePlayCountsTruncated\<close> (entry count 3, only entry 0 present:
  2 plays, last played 2082846800) the loop visits entry 1 at offset 104, where the file
  has ended: the buffer still holds the last-played field of entry 0, which is taken
  first as the play count and then as the time of entry 1. The track with identifier 1,
  which no entry of the file matches, is overwritten.
\<close>

theorem truncated_file_overwrites:
  "length samplePlayCountsTruncated = 104 \<and>
   parsePlayCounts_entries samplePlayCountsTruncated 0 sampleTracks =
     [(sampleTracks ! 0)\<lparr>playCount := Some 2, lastPlayed := Some 2000\<rparr>,
      (sampleTracks ! 1)\<lparr>playCount := Some 2082846800, lastPlayed := Some 2000\<rparr>,
      sampleTracks ! 2]"
  by (simp add: parsePlayCounts_entries_def playCountsStep_def readBytesAtPosition_def Let_def
      alloc_def replicate_numeral_Cons sampleTracks_def samplePlayCountsTruncated_def upt_rec)

text \<open>
  Claim C10 fails on the same kind of file: with a stride of 8 and an entry count of 3 the
  file holds no byte of entry 1 (nothing is left at offset \<open>96 + 1 * 8\<close>), yet the track
  with identifier 1 leaves correlation with a play count and a last-played time.
\<close>

theorem truncated_file_marks_unmatched:
  "fieldAt samplePlayCountsTruncated 8 = 8 \<and>
   fieldAt samplePlayCountsTruncated 12 = 3 \<and>
   drop (96 + 1 * 8) samplePlayCountsTruncated = [] \<and>
   parsePlayCounts_entries samplePlayCountsTruncated 0 [sampleTracks ! 1] =
     [(sampleTracks ! 1)\<lparr>playCount := Some 2082846800, lastPlayed := Some 2000\<rparr>]"
  by (simp add: parsePlayCounts_entries_def playCountsStep_def readBytesAtPosition_def Let_def
      alloc_def replicate_numeral_Cons sampleTracks_def samplePlayCountsTruncated_def upt_rec
      fieldAt_def slice_def)

lemma samplePlayCountsUndated_fields:
  "length samplePlayCountsUndated = 104"
  "fieldAt samplePlayCountsUndated 8 = 8"
  "fieldAt samplePlayCountsUndated 12 = 2"
  "fieldAt samplePlayCountsUndated 96 = 1"
  "fieldAt samplePlayCountsUndated 100 = 0"
  by (simp_all add: fieldAt_def slice_def samplePlayCountsUndated_def)

text \<open>
  Claim C5. The conversion in the Play Counts loop is applied to every entry with a
  nonzero play count, also when the last-played field is 0: with a time-zone offset of 0
  the track then carries \<open>- 2082844800\<close>, not 0.
\<close>

theorem undated_entry_converted:
  "parsePlayCounts_entries samplePlayCountsUndated 0 [sampleTracks ! 0]
     = [(sampleTracks ! 0)\<lparr>playCount := Some 1, lastPlayed := Some (- 2082844800)\<rparr>]"
proof -
  have "playDataOnly [sampleTracks ! 0]
          (parsePlayCounts_entries samplePlayCountsUndated 0 [sampleTracks ! 0])"
    by (rule playDataOnly_entries)
  then have len: "length (parsePlayCounts_entries samplePlayCountsUndated 0 [sampleTracks ! 0]) = 1"
    by (simp add: playDataOnly_def)
  have "parsePlayCounts_entries samplePlayCountsUndated 0 [sampleTracks ! 0] ! 0
          = (sampleTracks ! 0)\<lparr>playCount := Some 1, lastPlayed := Some (- 2082844800)\<rparr>"
    using correlation_entries [of samplePlayCountsUndated 0 "[sampleTracks ! 0]" 0]
    by (simp add: samplePlayCountsUndated_fields sampleTracks_def)
  with len show ?thesis
    by (cases "parsePlayCounts_entries samplePlayCountsUndated 0 [sampleTracks ! 0]") simp_all
qed

section \<open>The compressed container\<close>

lemma littleEndianToBigInt_zeros:
  "littleEndianToBigInt (bs @ replicate n 0) = littleEndianToBigInt bs"
proof (induction bs)
  case Nil
  show ?case by (induction n) simp_all
next
  case (Cons b bs)
  then show ?case by simp
qed

lemma read_fresh_dword:
  "littleEndianToBigInt (fst (readBytesAtPosition handler (alloc 4) position 4)) = fieldAt handler position"
proof -
  have "drop (length (take 4 (drop position handler))) (alloc 4)
          = replicate (4 - length (take 4 (drop position handler))) 0"
    by (simp add: alloc_def)
  then show ?thesis
    by (simp add: readBytesAtPosition_def Let_def fieldAt_def slice_def littleEndianToBigInt_zeros)
qed

lemma length_fresh_read: "length (fst (readBytesAtPosition handler (alloc 4) position 4)) = 4"
  by (simp add: readBytesAtPosition_def Let_def alloc_def)

lemma header_tag:
  "(toStringAscii (fst (readBytesAtPosition handler (alloc 4) 0 4)) 0 4 = ascii ''mhbd'')
     = (toStringAscii handler 0 4 = ascii ''mhbd'')"
proof (cases "4 \<le> length handler")
  case True
  then show ?thesis
    by (simp add: readBytesAtPosition_def Let_def toStringAscii_def slice_def)
next
  case False
  then have short: "length handler < 4" by simp
  have rhs: "toStringAscii handler 0 4 \<noteq> ascii ''mhbd''"
  proof
    assume "toStringAscii handler 0 4 = ascii ''mhbd''"
    then have "length (toStringAscii handler 0 4) = length (ascii ''mhbd'')" by simp
    with short show False by (simp add: toStringAscii_def slice_def ascii_def)
  qed
  have "fst (readBytesAtPosition handler (alloc 4) 0 4) = handler @ replicate (4 - length handler) 0"
    using short by (simp add: readBytesAtPosition_def Let_def alloc_def)
  moreover have "last (toStringAscii (handler @ replicate (4 - length handler) 0) 0 4) = 0"
    using short by (simp add: toStringAscii_def slice_def last_map)
  moreover have "last (ascii ''mhbd'') \<noteq> (0 :: byte)"
    by (simp add: ascii_def)
  ultimately have "toStringAscii (fst (readBytesAtPosition handler (alloc 4) 0 4)) 0 4 \<noteq> ascii ''mhbd''"
    by metis
  with rhs show ?thesis by simp
qed

lemma parseCompressed_body_bad_tag:
  assumes "toStringAscii handler 0 4 \<noteq> ascii ''mhbd''"
  shows "parseCompressed_body inflateRaw utf8 tzOffset handler = Some (Inr [])"
  using assms header_tag [of handler]
  by (simp add: parseCompressed_body_def Let_def case_prod_beta)

lemma parseCompressed_body_bad_stream:
  assumes "toStringAscii handler 0 4 = ascii ''mhbd''"
    and "inflateRaw (drop 2 (take (50 * 1024 * 1024) (drop (fieldAt handler 4) handler))) = None"
  shows "parseCompressed_body inflateRaw utf8 tzOffset handler = Some (Inl DecompressionError)"
proof -
  have "readUInt32LE (fst (readBytesAtPosition handler (alloc 4) 4 4)) = Some (fieldAt handler 4)"
    using read_fresh_dword [of handler 4] length_fresh_read [of handler 4]
    by (simp add: readUInt32LE_def)
  then show ?thesis
    using assms header_tag [of handler]
    by (simp add: parseCompressed_body_def Let_def case_prod_beta slice_def)
qed

text \<open>
  Claim C2, as the code has it. For a compressed database (a file that opens under a path
  containing \<open>iTunesCDB\<close>) whose first four bytes, with the top bit of each byte cleared
  as the \<open>ascii\<close> decoding of the tag comparison does, are not \<open>mhbd\<close>, and for one
  whose stream the inflater rejects, \<open>parse\<close> returns the empty track list and no error.
\<close>

theorem compressed_container_failures:
  assumes "files filePath = Some handler"
    and "isCompressed filePath"
    and "toStringAscii handler 0 4 \<noteq> ascii ''mhbd'' \<or>
         inflateRaw (drop 2 (take (50 * 1024 * 1024) (drop (fieldAt handler 4) handler))) = None"
  shows "parse inflateRaw utf8 tzOffset files filePath playCountsPath = Some (Inr [])"
proof -
  have "parseCompressedItunesDb inflateRaw utf8 tzOffset handler = Some []"
  proof (cases "toStringAscii handler 0 4 = ascii ''mhbd''")
    case False
    then show ?thesis
      by (simp add: parseCompressedItunesDb_def parseCompressed_body_bad_tag)
  next
    case True
    with assms(3) show ?thesis
      by (simp add: parseCompressedItunesDb_def parseCompressed_body_bad_stream)
  qed
  then show ?thesis
    using assms(1,2) by (simp add: parse_def parseItunesDb_def)
qed

lemma isCompressed_sample: "isCompressed ''/ipod/iTunesCDB''"
  unfolding isCompressed_def by (rule sublist_appendI [of _ "''/ipod/''" "[]", simplified])

theorem compressed_container_failures_witness:
  "parse (\<lambda>deflateData. None) utf8_ascii 0 (sampleCompressedFiles sampleBadStream)
     ''/ipod/iTunesCDB'' ''/ipod/Play Counts'' = Some (Inr [])"
  using compressed_container_failures [where files = "sampleCompressedFiles sampleBadStream"
      and handler = sampleBadStream and inflateRaw = "\<lambda>deflateData. None"
      and filePath = "''/ipod/iTunesCDB''", OF _ isCompressed_sample]
  by (simp add: sampleCompressedFiles_def)

section \<open>What the item decoders read\<close>

lemma setString_frame:
  "id' (setString mhodType str trk) = id' trk"
  "length' (setString mhodType str trk) = length' trk"
  "playCount (setString mhodType str trk) = playCount trk"
  "lastPlayed (setString mhodType str trk) = lastPlayed trk"
  by (simp_all add: setString_def)

lemma parsemhod_frame:
  "id' (fst (parsemhod trk handler startOffset headerSize)) = id' trk"
  "length' (fst (parsemhod trk handler startOffset headerSize)) = length' trk"
  "playCount (fst (parsemhod trk handler startOffset headerSize)) = playCount trk"
  "lastPlayed (fst (parsemhod trk handler startOffset headerSize)) = lastPlayed trk"
  by (simp_all add: parsemhod_def Let_def case_prod_beta setString_frame)

lemma parseMhit_mhods_frame:
  "id' (parseMhit_mhods n trk handler startOffset headerSize) = id' trk \<and>
   length' (parseMhit_mhods n trk handler startOffset headerSize) = length' trk \<and>
   playCount (parseMhit_mhods n trk handler startOffset headerSize) = playCount trk \<and>
   lastPlayed (parseMhit_mhods n trk handler startOffset headerSize) = lastPlayed trk"
proof (induction n arbitrary: trk startOffset)
  case 0
  show ?case by simp
next
  case (Suc n)
  show ?case
    using Suc.IH [of "fst (parsemhod trk handler startOffset headerSize)"
        "startOffset + snd (parsemhod trk handler startOffset headerSize)"]
    by (simp add: case_prod_beta parsemhod_frame)
qed

lemma parseMhit_fields:
  "playCount (parseMhit handler startOffset) = None"
  "lastPlayed (parseMhit handler startOffset) = None"
  "startOffset + 16 \<le> length handler \<Longrightarrow>
     id' (parseMhit handler startOffset) = fieldAt handler (startOffset + 12)"
  "startOffset + 40 \<le> length handler \<Longrightarrow>
     length' (parseMhit handler startOffset) = Some (fieldAt handler (startOffset + 36))"
proof -
  define d1 where "d1 = fst (readBytesAtPosition handler (alloc 4) startOffset 4)"
  define d2 where "d2 = fst (readBytesAtPosition handler d1 (startOffset + 8) 4)"
  define d3 where "d3 = fst (readBytesAtPosition handler d2 (startOffset + 12) 4)"
  define d4 where "d4 = fst (readBytesAtPosition handler d3 (startOffset + 36) 4)"
  have len: "length d1 = 4" "length d2 = 4" "length d3 = 4"
    using length_readBytesAtPosition [of 4 _ handler]
    by (simp_all add: d1_def d2_def d3_def alloc_def)
  have unfold: "parseMhit handler startOffset =
      parseMhit_mhods (littleEndianToBigInt d2)
        \<lparr>track = None, artist = None, album = None, playCount = None, lastPlayed = None,
          id' = littleEndianToBigInt d3, length' = Some (littleEndianToBigInt d4)\<rparr>
        handler startOffset (littleEndianToBigInt d1)"
    by (simp add: parseMhit_def Let_def case_prod_beta d1_def d2_def d3_def d4_def add.assoc)
  show "playCount (parseMhit handler startOffset) = None"
    and "lastPlayed (parseMhit handler startOffset) = None"
    by (simp_all add: unfold parseMhit_mhods_frame)
  show "id' (parseMhit handler startOffset) = fieldAt handler (startOffset + 12)"
    if "startOffset + 16 \<le> length handler"
    using that read_dword [of "startOffset + 12" handler d2] len
    by (simp add: unfold parseMhit_mhods_frame d3_def)
  show "length' (parseMhit handler startOffset) = Some (fieldAt handler (startOffset + 36))"
    if "startOffset + 40 \<le> length handler"
    using that read_dword [of "startOffset + 36" handler d3] len
    by (simp add: unfold parseMhit_mhods_frame d4_def)
qed

lemma readUInt32LE_slice:
  "readUInt32LE (slice buffer pos (pos + 4)) =
     (if pos + 4 \<le> length buffer then Some (fieldAt buffer pos) else None)"
  by (auto simp: readUInt32LE_def fieldAt_def slice_def)

lemma parseMhodFromBuffer_frame:
  "id' (fst (parseMhodFromBuffer decode buffer mhodStart trk)) = id' trk"
  "length' (fst (parseMhodFromBuffer decode buffer mhodStart trk)) = length' trk"
  "playCount (fst (parseMhodFromBuffer decode buffer mhodStart trk)) = playCount trk"
  "lastPlayed (fst (parseMhodFromBuffer decode buffer mhodStart trk)) = lastPlayed trk"
  by (auto simp: parseMhodFromBuffer_def parseMhod_body_def Let_def setString_frame
      split: option.splits if_splits Option.bind_splits)

lemma parseTrack_mhods_frame:
  "id' (parseTrack_mhods decode n buffer mhodPos mhitEnd trk) = id' trk \<and>
   length' (parseTrack_mhods decode n buffer mhodPos mhitEnd trk) = length' trk \<and>
   playCount (parseTrack_mhods decode n buffer mhodPos mhitEnd trk) = playCount trk \<and>
   lastPlayed (parseTrack_mhods decode n buffer mhodPos mhitEnd trk) = lastPlayed trk"
proof (induction n arbitrary: trk mhodPos)
  case 0
  show ?case by simp
next
  case (Suc n)
  show ?case
    using Suc.IH [of "mhodPos + snd (parseMhodFromBuffer decode buffer mhodPos trk)"
        "fst (parseMhodFromBuffer decode buffer mhodPos trk)"]
    by (simp add: case_prod_beta parseMhodFromBuffer_frame)
qed

lemma parseTrackFromBuffer_fields:
  assumes "parseTrackFromBuffer decode tzOffset buffer trackStart sequenceIndex = Some trk"
  shows "id' trk = sequenceIndex"
    and "length' trk = Some (fieldAt buffer (trackStart + 0x28))"
    and "playCount trk = Some (fieldAt buffer (trackStart + 0x50))"
    and "lastPlayed trk =
           Some (if 0 < fieldAt buffer (trackStart + 0x58)
                 then int (fieldAt buffer (trackStart + 0x58)) - 2082844800 + tzOffset
                 else 0)"
    and "toStringAscii buffer trackStart (trackStart + 4) = ascii ''mhit''"
    and "trackStart + 0x5C \<le> length buffer"
  using assms
  by (auto simp: parseTrackFromBuffer_def Let_def readUInt32LE_slice parseTrack_mhods_frame
      add.assoc split: if_splits Option.bind_splits)

lemma sampleItunesDb_fields:
  "length sampleItunesDb = 88"
  "fieldAt sampleItunesDb 12 = 1"
  "fieldAt sampleItunesDb 16 = 2"
  "fieldAt sampleItunesDb 40 = 180000"
  by (simp_all add: fieldAt_def slice_def sampleItunesDb_def)

lemma samplePayload_fields:
  "length samplePayload = 164"
  "fieldAt samplePayload 40 = 1"
  "fieldAt samplePayload 44 = 7"
  "fieldAt samplePayload 68 = 180000"
  "fieldAt samplePayload 108 = 3"
  "fieldAt samplePayload 116 = 2082845800"
  by (simp_all add: fieldAt_def slice_def samplePayload_def)


lemma samplePayload_item:
  "parseTrackFromBuffer utf8_ascii 0 samplePayload 28 0 =
     Some \<lparr>track = Some [65], artist = Some [], album = Some [], playCount = Some 3,
            lastPlayed = Some 1000, id' = 0, length' = Some 180000\<rparr>"
  by (simp add: parseTrackFromBuffer_def parseMhodFromBuffer_def parseMhod_body_def Let_def
      readUInt32LE_def slice_def toStringAscii_def ascii_def setString_def stripNulls_def
      samplePayload_def)

lemma sampleItunesDb_item:
  "parseMhit sampleItunesDb 4 =
     \<lparr>track = Some [65, 0], artist = None, album = None, playCount = None,
      lastPlayed = None, id' = 2, length' = Some 180000\<rparr>"
  by (simp add: parseMhit_def parsemhod_def readBytesAtPosition_def Let_def alloc_def
      setString_def sampleItunesDb_def replicate_numeral_Cons)



section \<open>Field offsets of a track item\<close>

text \<open>
  Claim C6, as the code has it. The scanning decoder, on an item whose first 44 bytes lie
  in the file, takes the identifier from +16 and the length from +0x28 of the item and
  reads neither a play count nor a last-played time. The structured decoder, whenever it
  returns a track, has found at least 0x5C bytes of the item in the buffer, gives the
  track the sequence index it was called with, and reads the length at +0x28, the play
  count at +0x50 and the last-played time at +0x58, which it converts unless it is 0.
\<close>

theorem item_field_offsets:
  "(p + 44 \<le> length handler \<longrightarrow>
      id' (parseMhit handler (p + 4)) = fieldAt handler (p + 16) \<and>
      length' (parseMhit handler (p + 4)) = Some (fieldAt handler (p + 0x28)) \<and>
      playCount (parseMhit handler (p + 4)) = None \<and>
      lastPlayed (parseMhit handler (p + 4)) = None) \<and>
   (parseTrackFromBuffer decode tzOffset buffer p sequenceIndex = Some trk \<longrightarrow>
      p + 0x5C \<le> length buffer \<and>
      id' trk = sequenceIndex \<and>
      length' trk = Some (fieldAt buffer (p + 0x28)) \<and>
      playCount trk = Some (fieldAt buffer (p + 0x50)) \<and>
      lastPlayed trk =
        Some (if 0 < fieldAt buffer (p + 0x58)
              then int (fieldAt buffer (p + 0x58)) - 2082844800 + tzOffset else 0))"
proof (intro conjI impI)
  assume "p + 44 \<le> length handler"
  then show "id' (parseMhit handler (p + 4)) = fieldAt handler (p + 16)"
    and "length' (parseMhit handler (p + 4)) = Some (fieldAt handler (p + 0x28))"
    using parseMhit_fields(3,4) [of "p + 4" handler] by (simp_all add: add.assoc)
next
  show "playCount (parseMhit handler (p + 4)) = None"
    and "lastPlayed (parseMhit handler (p + 4)) = None"
    by (simp_all add: parseMhit_fields)
next
  assume "parseTrackFromBuffer decode tzOffset buffer p sequenceIndex = Some trk"
  then show "p + 0x5C \<le> length buffer"
    and "id' trk = sequenceIndex"
    and "length' trk = Some (fieldAt buffer (p + 0x28))"
    and "playCount trk = Some (fieldAt buffer (p + 0x50))"
    and "lastPlayed trk =
        Some (if 0 < fieldAt buffer (p + 0x58)
              then int (fieldAt buffer (p + 0x58)) - 2082844800 + tzOffset else 0)"
    by (rule parseTrackFromBuffer_fields)+
qed

theorem item_field_offsets_witness:
  "id' (parseMhit sampleItunesDb 4) = 2 \<and>
   length' (parseMhit sampleItunesDb 4) = Some 180000 \<and>
   (\<exists>trk. parseTrackFromBuffer utf8_ascii 0 samplePayload 28 0 = Some trk \<and>
      id' trk = 0 \<and> length' trk = Some 180000 \<and> playCount trk = Some 3 \<and>
      lastPlayed trk = Some 1000)"
  using item_field_offsets [where p = 0 and handler = sampleItunesDb]
    item_field_offsets [where decode = utf8_ascii and tzOffset = 0 and buffer = samplePayload
      and p = 28 and sequenceIndex = 0
      and trk = "\<lparr>track = Some [65], artist = Some [], album = Some [], playCount = Some 3,
        lastPlayed = Some 1000, id' = 0, length' = Some 180000\<rparr>"]
  by (simp add: sampleItunesDb_fields samplePayload_item samplePayload_fields)

text \<open>
  Claim C6 as stated fails. In both samples the field at +12 of the item is the object
  count 1 and the identifier stands at +16; the scanning decoder returns the identifier 2
  of +16 and no play data, the structured decoder returns the sequence index 0 where the
  item holds the identifier 7. On an item cut off after 16 bytes the scanning decoder
  returns what its read buffer still held, the object count, as identifier and as length.
\<close>

theorem identifier_not_at_12:
  "fieldAt sampleItunesDb 12 = 1 \<and> fieldAt sampleItunesDb 16 = 2 \<and>
   id' (parseMhit sampleItunesDb 4) = 2 \<and>
   playCount (parseMhit sampleItunesDb 4) = None \<and>
   lastPlayed (parseMhit sampleItunesDb 4) = None \<and>
   fieldAt samplePayload (28 + 12) = 1 \<and> fieldAt samplePayload (28 + 16) = 7 \<and>
   map_option id' (parseTrackFromBuffer utf8_ascii 0 samplePayload 28 0) = Some 0 \<and>
   length (take 16 sampleItunesDb) = 16 \<and>
   id' (parseMhit (take 16 sampleItunesDb) 4) = 1 \<and>
   length' (parseMhit (take 16 sampleItunesDb) 4) = Some 1"
proof -
  have "parseMhit (take 16 sampleItunesDb) 4 =
          \<lparr>track = None, artist = None, album = None, playCount = None,
           lastPlayed = None, id' = 1, length' = Some 1\<rparr>"
    by (simp add: parseMhit_def parsemhod_def readBytesAtPosition_def Let_def alloc_def
        setString_def sampleItunesDb_def replicate_numeral_Cons)
  then show ?thesis
    by (simp add: sampleItunesDb_fields samplePayload_fields sampleItunesDb_item
        samplePayload_item)
qed

section \<open>Metadata strings\<close>

lemma readUInt32LE_slice_to:
  "stop = pos + 4 \<Longrightarrow>
     readUInt32LE (slice buffer pos stop) =
       (if pos + 4 \<le> length buffer then Some (fieldAt buffer pos) else None)"
  by (simp add: readUInt32LE_slice)









section \<open>Sequence identifiers\<close>














lemma samplePayload_reads:
  "toStringAscii samplePayload 0 4 = ascii ''mhsd''"
  "readMhsd samplePayload 0 = Some (16, 164, 1)"
  "toStringAscii samplePayload 16 20 = ascii ''mhlt''"
  "fieldAt samplePayload 20 = 12"
  "fieldAt samplePayload 24 = 1"
  "fieldAt samplePayload 36 = 136"
  by (simp_all add: toStringAscii_def ascii_def readMhsd_def readUInt32LE_def fieldAt_def
      slice_def samplePayload_def)

lemma samplePayload_tracks:
  "parseTrackList utf8_ascii 0 samplePayload 16 =
     [\<lparr>track = Some [65], artist = Some [], album = Some [], playCount = Some 3,
       lastPlayed = Some 1000, id' = 0, length' = Some 180000\<rparr>]"
  by (simp add: parseTrackList_def Let_def readUInt32LE_slice_to samplePayload_reads
      samplePayload_fields parseTrackList_loop.simps samplePayload_item truthy_def)

lemma samplePayload_decoded:
  "parseDecompressedDatabase utf8_ascii 0 samplePayload =
     Some [\<lparr>track = Some [65], artist = Some [], album = Some [], playCount = Some 3,
            lastPlayed = Some 1000, id' = 0, length' = Some 180000\<rparr>]"
  unfolding parseDecompressedDatabase_def
  by (subst parseDecompressed_loop.simps)
     (simp add: samplePayload_reads samplePayload_fields samplePayload_tracks)

lemma inflated_container:
  assumes "toStringAscii container 0 4 = ascii ''mhbd''"
    and "fieldAt container 4 = 8"
    and "drop 2 (take 52428800 (drop 8 container)) = [99, 0]"
  shows "parseCompressedItunesDb sampleInflate utf8_ascii 0 container =
     Some [\<lparr>track = Some [65], artist = Some [], album = Some [], playCount = Some 3,
            lastPlayed = Some 1000, id' = 0, length' = Some 180000\<rparr>]"
proof -
  have size: "readUInt32LE (fst (readBytesAtPosition container (alloc 4) 4 4)) = Some 8"
    using read_fresh_dword [of container 4] length_fresh_read [of container 4]
    by (simp add: readUInt32LE_def assms(2))
  have "parseCompressed_body sampleInflate utf8_ascii 0 container
          = map_option Inr (parseDecompressedDatabase utf8_ascii 0 samplePayload)"
    using size header_tag [of container] assms(1,3)
    by (simp add: parseCompressed_body_def Let_def case_prod_beta slice_def sampleInflate_def)
  then show ?thesis
    by (simp add: parseCompressedItunesDb_def samplePayload_decoded)
qed






section \<open>The recent tracks\<close>











section \<open>Containers that are not refused\<close>

lemma sampleMaskedTag_reads:
  "slice sampleMaskedTag 0 4 \<noteq> ascii ''mhbd''"
  "toStringAscii sampleMaskedTag 0 4 = ascii ''mhbd''"
  "fieldAt sampleMaskedTag 4 = 8"
  "drop 2 (take 52428800 (drop 8 sampleMaskedTag)) = [99, 0]"
  by (simp_all add: toStringAscii_def ascii_def fieldAt_def slice_def sampleMaskedTag_def)

text \<open>
  Claim C2 as stated fails: on a file with the tag \<open>mhbx\<close>, and on a file with the tag
  \<open>mhbd\<close> whose stream is rejected (the body of the \<open>try\<close> block raises
  \<open>DecompressionError\<close>), the caller receives the value \<open>Inr []\<close>, not an error. A file
  whose first byte is 237 does not start with the bytes of \<open>mhbd\<close>, but its tag reads as
  \<open>mhbd\<close> once the top bits are cleared, and it is decoded like any other container.
\<close>

theorem container_errors_swallowed:
  "parse (\<lambda>deflateData. None) utf8_ascii 0 (sampleCompressedFiles sampleBadTag)
     ''/ipod/iTunesCDB'' ''/ipod/Play Counts'' = Some (Inr []) \<and>
   parseCompressed_body (\<lambda>deflateData. None) utf8_ascii 0 sampleBadStream
     = Some (Inl DecompressionError) \<and>
   parse (\<lambda>deflateData. None) utf8_ascii 0 (sampleCompressedFiles sampleBadStream)
     ''/ipod/iTunesCDB'' ''/ipod/Play Counts'' = Some (Inr []) \<and>
   slice sampleMaskedTag 0 4 \<noteq> ascii ''mhbd'' \<and>
   parse sampleInflate utf8_ascii 0 (sampleCompressedFiles sampleMaskedTag)
     ''/ipod/iTunesCDB'' ''/ipod/Play Counts''
     = Some (Inr [\<lparr>track = Some [65], artist = Some [], album = Some [], playCount = Some 3,
                   lastPlayed = Some 1000, id' = 0, length' = Some 180000\<rparr>])"
proof -
  have bad: "toStringAscii sampleBadTag 0 4 \<noteq> ascii ''mhbd''"
    by (simp add: toStringAscii_def slice_def ascii_def sampleBadTag_def)
  have good: "toStringAscii sampleBadStream 0 4 = ascii ''mhbd''"
    by (simp add: toStringAscii_def slice_def ascii_def sampleBadStream_def)
  have 1: "parseCompressedItunesDb (\<lambda>deflateData. None) utf8_ascii 0 sampleBadTag = Some []"
    using bad by (simp add: parseCompressedItunesDb_def parseCompressed_body_bad_tag)
  have 2: "parseCompressed_body (\<lambda>deflateData. None) utf8_ascii 0 sampleBadStream
             = Some (Inl DecompressionError)"
    using good by (simp add: parseCompressed_body_bad_stream)
  have 3: "parseCompressedItunesDb (\<lambda>deflateData. None) utf8_ascii 0 sampleBadStream = Some []"
    using 2 by (simp add: parseCompressedItunesDb_def)
  have 4: "parseCompressedItunesDb sampleInflate utf8_ascii 0 sampleMaskedTag =
     Some [\<lparr>track = Some [65], artist = Some [], album = Some [], playCount = Some 3,
            lastPlayed = Some 1000, id' = 0, length' = Some 180000\<rparr>]"
    by (rule inflated_container) (rule sampleMaskedTag_reads)+
  show ?thesis
    using 1 2 3 4 isCompressed_sample sampleMaskedTag_reads(1)
    by (simp add: parse_def parseItunesDb_def sampleCompressedFiles_def)
qed

end
